theory Spec2Isabelle
  imports Main "HOL-Library.Word"
begin

section \<open>JavaScript values\<close>

text \<open>
  The decoders of \<^verbatim>\<open>utils/stringUtils.ts\<close> take and return values of type \<^verbatim>\<open>any\<close>.
  A JavaScript string is a sequence of 16-bit code units, a \<^verbatim>\<open>Uint8Array\<close> a sequence
  of bytes. A Number is modelled when it is a safe integer (\<open>JNum\<close>) or NaN (\<open>JNaN\<close>);
  every other Number (fractional, infinite, or of magnitude above \<open>2\<^sup>5\<^sup>3\<close>, where the
  language writes rounded digits or the exponent form) is not a value of this model. An
  object is the association list of its own data properties in insertion order (look-up
  takes the first binding); its prototype is \<^verbatim>\<open>Object.prototype\<close>. Functions and symbols
  are not values of this model.
\<close>

type_synonym byte = "8 word"
type_synonym jsstring = "16 word list"

text \<open>
  The integers of magnitude at most \<open>2\<^sup>5\<^sup>3\<close>: each is a Number, exactly, and
  \<^verbatim>\<open>Number.prototype.toString\<close> writes each as its decimal numeral.
\<close>

typedef safe_int = "{n :: int. - (2 ^ 53) \<le> n \<and> n \<le> 2 ^ 53}"
  by (rule exI [of _ 0]) simp

definition number_value :: "safe_int \<Rightarrow> int" where
  "number_value x = Rep_safe_int x"

text \<open>The Number of an integer of that range (zero stands in outside it).\<close>

definition safe :: "int \<Rightarrow> safe_int" where
  "safe n = Abs_safe_int (if - (2 ^ 53) \<le> n \<and> n \<le> 2 ^ 53 then n else 0)"

datatype jsval =
    JUndefined
  | JNull
  | JBool bool
  | JNum safe_int
  | JNaN
  | JBigInt int
  | JStr jsstring
  | JBytes "byte list"
  | JArr "jsval list"
  | JObj "(jsstring \<times> jsval) list"

datatype jstype = TUndefined | TObject | TBoolean | TNumber | TBigint | TString

text \<open>A string literal of the source, as code units.\<close>

definition js :: "string \<Rightarrow> jsstring" where
  "js s = map of_char s"

text \<open>The \<^verbatim>\<open>typeof\<close> operator.\<close>

fun typeof :: "jsval \<Rightarrow> jstype" where
  "typeof JUndefined = TUndefined"
| "typeof JNull = TObject"
| "typeof (JBool b) = TBoolean"
| "typeof (JNum n) = TNumber"
| "typeof JNaN = TNumber"
| "typeof (JBigInt n) = TBigint"
| "typeof (JStr s) = TString"
| "typeof (JBytes bs) = TObject"
| "typeof (JArr xs) = TObject"
| "typeof (JObj kvs) = TObject"

text \<open>Truthiness: \<^verbatim>\<open>!value\<close> is the negation of \<open>truthy value\<close>.\<close>

fun truthy :: "jsval \<Rightarrow> bool" where
  "truthy JUndefined = False"
| "truthy JNull = False"
| "truthy (JBool b) = b"
| "truthy (JNum n) = (number_value n \<noteq> 0)"
| "truthy JNaN = False"
| "truthy (JBigInt n) = (n \<noteq> 0)"
| "truthy (JStr s) = (s \<noteq> [])"
| "truthy (JBytes bs) = True"
| "truthy (JArr xs) = True"
| "truthy (JObj kvs) = True"

text \<open>Property names that every object inherits from \<^verbatim>\<open>Object.prototype\<close>.\<close>

definition Object_prototype_keys :: "jsstring list" where
  "Object_prototype_keys = map js
     [''constructor'', ''hasOwnProperty'', ''isPrototypeOf'', ''propertyIsEnumerable'',
      ''toLocaleString'', ''toString'', ''valueOf'', ''__proto__'',
      ''__defineGetter__'', ''__defineSetter__'', ''__lookupGetter__'', ''__lookupSetter__'']"

text \<open>
  The \<^verbatim>\<open>in\<close> operator on a value of type object: own properties, then the prototype
  chain. The source asks for four names only, \<open>data\<close>, \<open>pending_word\<close>,
  \<open>pending_word_len\<close> and \<open>toString\<close>; the index keys and the methods that an array and
  a typed array add to the chain are none of them and are left out. On a primitive the
  operator raises a TypeError; the source guards every use with
  \<^verbatim>\<open>typeof value === 'object'\<close>, and \<open>None\<close> stands for the TypeError.
\<close>

fun has_property :: "jsstring \<Rightarrow> jsval \<Rightarrow> bool option" where
  "has_property k (JObj kvs) = Some (k \<in> fst ` set kvs \<or> k \<in> set Object_prototype_keys)"
| "has_property k (JArr xs) = Some (k = js ''length'' \<or> k \<in> set Object_prototype_keys)"
| "has_property k (JBytes bs) =
     Some (k \<in> set (map js [''length'', ''buffer'', ''byteLength'', ''byteOffset''])
           \<or> k \<in> set Object_prototype_keys)"
| "has_property k v = None"

text \<open>
  Reading \<^verbatim>\<open>value.k\<close> for one of the three field names of a record, none of which is
  inherited; an absent property reads \<^verbatim>\<open>undefined\<close>.
\<close>

fun get_property :: "jsval \<Rightarrow> jsstring \<Rightarrow> jsval" where
  "get_property (JObj kvs) k = (case map_of kvs k of Some v \<Rightarrow> v | None \<Rightarrow> JUndefined)"
| "get_property v k = JUndefined"

fun Array_isArray :: "jsval \<Rightarrow> bool" where
  "Array_isArray (JArr xs) = True"
| "Array_isArray v = False"

section \<open>Shape detection\<close>

text \<open>\<^verbatim>\<open>isCairoByteArray\<close>, with the short-circuit evaluation of \<^verbatim>\<open>&&\<close> and \<^verbatim>\<open>||\<close>.\<close>

definition isCairoByteArray :: "jsval \<Rightarrow> bool" where
  "isCairoByteArray v =
     (typeof v = TObject \<and>
      v \<noteq> JNull \<and>
      has_property (js ''data'') v = Some True \<and>
      Array_isArray (get_property v (js ''data'')) \<and>
      (has_property (js ''pending_word'') v = Some True \<or>
       has_property (js ''pending_word_len'') v = Some True))"

section \<open>String to bytes in the contract service\<close>

text \<open>\<^verbatim>\<open>str.charCodeAt(i)\<close> for an index inside the string.\<close>

definition charCodeAt :: "jsstring \<Rightarrow> nat \<Rightarrow> int" where
  "charCodeAt str i = uint (str ! i)"

text \<open>Storing a Number into a \<^verbatim>\<open>Uint8Array\<close> element keeps it modulo 256.\<close>

definition ToUint8 :: "int \<Rightarrow> byte" where
  "ToUint8 n = word_of_int n"

text \<open>
  The loop of \<^verbatim>\<open>stringToUint8Array\<close>: the array starts as \<open>str.length\<close> zero bytes and
  element \<open>i\<close> is overwritten in round \<open>i\<close>.
\<close>

function stringToUint8Array_loop :: "jsstring \<Rightarrow> nat \<Rightarrow> byte list \<Rightarrow> byte list" where
  "stringToUint8Array_loop str i uint8Array =
     (if i < length str
      then stringToUint8Array_loop str (Suc i) (uint8Array[i := ToUint8 (charCodeAt str i)])
      else uint8Array)"
  by pat_completeness auto
termination
  by (relation "measure (\<lambda>(str, i, uint8Array). length str - i)") auto

declare stringToUint8Array_loop.simps [simp del]

definition stringToUint8Array :: "jsstring \<Rightarrow> byte list" where
  "stringToUint8Array str = stringToUint8Array_loop str 0 (replicate (length str) 0)"

section \<open>Errors\<close>

text \<open>
  Every exception the decoders can meet is a value. \<open>InvalidHexString\<close>,
  \<open>InvalidByteArray\<close>, \<open>UnsupportedValueType\<close> and \<open>FailedToConvert\<close> are the
  \<^verbatim>\<open>Error\<close>s the source constructs itself; \<open>CborDecodingError\<close> is the \<^verbatim>\<open>Error\<close> that
  \<^verbatim>\<open>decodeCborMetadata\<close> re-raises around the message of the one it caught;
  \<open>LibraryError\<close> is an exception of an imported library.
\<close>

datatype error =
    TypeError
  | RangeError
  | SyntaxError
  | InvalidHexString nat jsstring
  | InvalidByteArray
  | UnsupportedValueType jstype
  | FailedToConvert
  | LibraryError jsstring
  | CborDecodingError error

section \<open>Conversions between integers and strings\<close>

text \<open>The digit of value \<open>d\<close> as \<^verbatim>\<open>toString(radix)\<close> writes it: \<open>0\<close>-\<open>9\<close>, then \<open>a\<close>-\<open>z\<close>.\<close>

definition digit_char :: "nat \<Rightarrow> 16 word" where
  "digit_char d = (if d < 10 then of_nat (48 + d) else of_nat (87 + d))"

text \<open>The digits of a natural number in a radix from 2 to 36, most significant first.\<close>

function radix_digits :: "nat \<Rightarrow> nat \<Rightarrow> jsstring" where
  "radix_digits r n =
     (if n < r \<or> r < 2 then [digit_char n]
      else radix_digits r (n div r) @ [digit_char (n mod r)])"
  by pat_completeness auto
termination
  by (relation "measure (\<lambda>(r, n). n)") auto

declare radix_digits.simps [simp del]

text \<open>\<^verbatim>\<open>BigInt.prototype.toString(radix)\<close>: a minus sign, then the digits of the magnitude.\<close>

definition bigint_toString :: "nat \<Rightarrow> int \<Rightarrow> jsstring" where
  "bigint_toString radix n =
     (if n < 0 then 0x2D # radix_digits radix (nat (- n)) else radix_digits radix (nat n))"

text \<open>
  \<^verbatim>\<open>Number.prototype.toString()\<close> on a safe integer, where it is the decimal numeral.
\<close>

definition number_toString :: "safe_int \<Rightarrow> jsstring" where
  "number_toString n = bigint_toString 10 (number_value n)"

text \<open>The value of a character as a digit, in any radix up to 36.\<close>

definition digit_value :: "16 word \<Rightarrow> nat option" where
  "digit_value c =
     (if 0x30 \<le> c \<and> c \<le> 0x39 then Some (unat c - 48)
      else if 0x61 \<le> c \<and> c \<le> 0x7A then Some (unat c - 87)
      else if 0x41 \<le> c \<and> c \<le> 0x5A then Some (unat c - 55)
      else None)"

definition is_radix_digit :: "nat \<Rightarrow> 16 word \<Rightarrow> bool" where
  "is_radix_digit r c = (case digit_value c of Some d \<Rightarrow> d < r | None \<Rightarrow> False)"

text \<open>Reading a whole string as digits of radix \<open>r\<close>; \<open>None\<close> at the first other character.\<close>

fun read_digits :: "nat \<Rightarrow> nat \<Rightarrow> jsstring \<Rightarrow> nat option" where
  "read_digits r acc [] = Some acc"
| "read_digits r acc (c # cs) =
     (case digit_value c of
        Some d \<Rightarrow> if d < r then read_digits r (acc * r + d) cs else None
      | None \<Rightarrow> None)"

text \<open>White space and line terminators, as \<^verbatim>\<open>parseInt\<close> and \<^verbatim>\<open>BigInt\<close> skip them.\<close>

definition is_StrWhiteSpaceChar :: "16 word \<Rightarrow> bool" where
  "is_StrWhiteSpaceChar c =
     (c \<in> set [0x09, 0x0A, 0x0B, 0x0C, 0x0D, 0x20, 0xA0, 0x1680, 0x2028, 0x2029,
                0x202F, 0x205F, 0x3000, 0xFEFF]
      \<or> (0x2000 \<le> c \<and> c \<le> 0x200A))"

definition trim_start :: "jsstring \<Rightarrow> jsstring" where
  "trim_start s = dropWhile is_StrWhiteSpaceChar s"

definition trim :: "jsstring \<Rightarrow> jsstring" where
  "trim s = rev (dropWhile is_StrWhiteSpaceChar (rev (trim_start s)))"

text \<open>\<^verbatim>\<open>s.startsWith(p)\<close>, \<^verbatim>\<open>s.slice(n)\<close> and \<^verbatim>\<open>s.substring(a, b)\<close> for \<open>a \<le> b\<close>.\<close>

definition startsWith :: "jsstring \<Rightarrow> jsstring \<Rightarrow> bool" where
  "startsWith s p = (take (length p) s = p)"

definition slice_from :: "jsstring \<Rightarrow> nat \<Rightarrow> jsstring" where
  "slice_from s n = drop n s"

definition substring :: "jsstring \<Rightarrow> nat \<Rightarrow> nat \<Rightarrow> jsstring" where
  "substring s a b = take (b - a) (drop a s)"

text \<open>
  \<^verbatim>\<open>StringToBigInt\<close>: the trimmed string is empty (zero), a \<open>0x\<close>, \<open>0o\<close> or \<open>0b\<close> literal
  without sign, or a decimal numeral with an optional sign; anything else is a
  SyntaxError.
\<close>

definition unsigned_literal :: "nat \<Rightarrow> jsstring \<Rightarrow> error + int" where
  "unsigned_literal r s =
     (if s = [] then Inl SyntaxError
      else case read_digits r 0 s of None \<Rightarrow> Inl SyntaxError | Some n \<Rightarrow> Inr (int n))"

definition StringToBigInt :: "jsstring \<Rightarrow> error + int" where
  "StringToBigInt str =
     (let s = trim str in
      if s = [] then Inr 0
      else if startsWith s (js ''0x'') \<or> startsWith s (js ''0X'') then unsigned_literal 16 (drop 2 s)
      else if startsWith s (js ''0o'') \<or> startsWith s (js ''0O'') then unsigned_literal 8 (drop 2 s)
      else if startsWith s (js ''0b'') \<or> startsWith s (js ''0B'') then unsigned_literal 2 (drop 2 s)
      else if startsWith s (js ''-'') then
        (case unsigned_literal 10 (drop 1 s) of Inl e \<Rightarrow> Inl e | Inr n \<Rightarrow> Inr (- n))
      else if startsWith s (js ''+'') then unsigned_literal 10 (drop 1 s)
      else unsigned_literal 10 s)"

text \<open>Joining strings with commas, as \<^verbatim>\<open>Array.prototype.join\<close> does.\<close>

fun join_comma :: "jsstring list \<Rightarrow> jsstring" where
  "join_comma [] = []"
| "join_comma [s] = s"
| "join_comma (s # t # ss) = s @ 0x2C # join_comma (t # ss)"

text \<open>The first error of a list of results, or all the values.\<close>

fun sequence_err :: "(error + 'a) list \<Rightarrow> error + 'a list" where
  "sequence_err [] = Inr []"
| "sequence_err (Inl e # rs) = Inl e"
| "sequence_err (Inr x # rs) =
     (case sequence_err rs of Inl e \<Rightarrow> Inl e | Inr xs \<Rightarrow> Inr (x # xs))"

text \<open>
  The abstract operation \<^verbatim>\<open>ToString\<close>, which is also what \<^verbatim>\<open>String(value)\<close> and the
  method call \<^verbatim>\<open>value.toString()\<close> compute on the values of this model. An array and a
  typed array join their elements (\<^verbatim>\<open>undefined\<close> and \<^verbatim>\<open>null\<close> elements as empty
  strings). A plain object inherits \<^verbatim>\<open>Object.prototype.toString\<close>; when it has an own
  data property named \<open>toString\<close>, that property is not callable and the conversion
  raises a TypeError.
\<close>

fun ToString :: "jsval \<Rightarrow> error + jsstring" where
  "ToString JUndefined = Inr (js ''undefined'')"
| "ToString JNull = Inr (js ''null'')"
| "ToString (JBool b) = Inr (if b then js ''true'' else js ''false'')"
| "ToString (JNum n) = Inr (number_toString n)"
| "ToString JNaN = Inr (js ''NaN'')"
| "ToString (JBigInt n) = Inr (bigint_toString 10 n)"
| "ToString (JStr s) = Inr s"
| "ToString (JBytes bs) = Inr (join_comma (map (\<lambda>b. bigint_toString 10 (uint b)) bs))"
| "ToString (JArr xs) =
     (case sequence_err
             (map (\<lambda>x. if x = JUndefined \<or> x = JNull then Inr [] else ToString x) xs) of
        Inl e \<Rightarrow> Inl e
      | Inr ss \<Rightarrow> Inr (join_comma ss))"
| "ToString (JObj kvs) =
     (if js ''toString'' \<in> fst ` set kvs then Inl TypeError
      else Inr (js ''[object Object]''))"

text \<open>
  The function \<^verbatim>\<open>BigInt(value)\<close>: a Number must be an integer, an object is first
  converted to a primitive (its string), a string is parsed.
\<close>

fun BigInt :: "jsval \<Rightarrow> error + int" where
  "BigInt JUndefined = Inl TypeError"
| "BigInt JNull = Inl TypeError"
| "BigInt (JBool b) = Inr (if b then 1 else 0)"
| "BigInt (JNum n) = Inr (number_value n)"
| "BigInt JNaN = Inl RangeError"
| "BigInt (JBigInt n) = Inr n"
| "BigInt (JStr s) = StringToBigInt s"
| "BigInt v = (case ToString v of Inl e \<Rightarrow> Inl e | Inr s \<Rightarrow> StringToBigInt s)"

text \<open>
  \<^verbatim>\<open>parseInt(string, radix)\<close> on a string; radix \<open>0\<close> stands for an absent radix.
  \<open>None\<close> is the result NaN.
\<close>

definition parseInt_string :: "jsstring \<Rightarrow> nat \<Rightarrow> int option" where
  "parseInt_string inputString radix =
     (let s = trim_start inputString;
          sign = (if startsWith s (js ''-'') then - 1 else (1::int));
          s = (if startsWith s (js ''-'') \<or> startsWith s (js ''+'') then drop 1 s else s);
          stripPrefix = (radix = 0 \<or> radix = 16);
          r = (if radix = 0 then 10 else radix)
      in if r < 2 \<or> 36 < r then None
         else
           let has_prefix = (stripPrefix \<and> (startsWith s (js ''0x'') \<or> startsWith s (js ''0X'')));
               s = (if has_prefix then drop 2 s else s);
               r = (if has_prefix then 16 else r);
               z = takeWhile (is_radix_digit r) s
           in if z = [] then None
              else case read_digits r 0 z of None \<Rightarrow> None | Some n \<Rightarrow> Some (sign * int n))"

text \<open>\<^verbatim>\<open>parseInt(value)\<close> on any value: its string is parsed.\<close>

definition parseInt :: "jsval \<Rightarrow> error + int option" where
  "parseInt v = (case ToString v of Inl e \<Rightarrow> Inl e | Inr s \<Rightarrow> Inr (parseInt_string s 0))"

section \<open>The runtime and the imported libraries\<close>

text \<open>
  What the decoders call and the repository does not contain: the \<^verbatim>\<open>decode\<close> function of
  the cbor2 library, \<^verbatim>\<open>shortString.decodeShortString\<close> of the starknet library, the
  UTF-8 codecs \<^verbatim>\<open>TextDecoder\<close> and \<^verbatim>\<open>TextEncoder\<close>, \<^verbatim>\<open>Number\<close> applied to a string and
  \<^verbatim>\<open>JSON.stringify\<close> with a replacer. They are parameters of the decoders. A library
  call that raises returns \<open>Inl\<close>. \<open>TextDecoder_decode\<close> returns \<open>Inl\<close> also where
  \<^verbatim>\<open>TextDecoder\<close> does not exist (the older browsers of the source's comment).
\<close>

record platform =
  decodeCbor :: "byte list \<Rightarrow> error + jsval"
  decodeShortString :: "jsval \<Rightarrow> error + jsstring"
  TextDecoder_decode :: "byte list \<Rightarrow> error + jsstring"
  TextEncoder_encode :: "jsstring \<Rightarrow> byte list"
  Number_of_string :: "jsstring \<Rightarrow> jsval"
  JSON_stringify :: "jsval \<Rightarrow> (jsstring \<Rightarrow> jsval \<Rightarrow> jsval) \<Rightarrow> error + jsval"

section \<open>Hexadecimal strings to bytes\<close>

text \<open>
  The loop of \<^verbatim>\<open>hexToBytes\<close>: two characters at a time are given to \<^verbatim>\<open>parseInt(_, 16)\<close>;
  NaN raises the error, any other result is stored into the typed array.
\<close>

function hexToBytes_loop :: "jsstring \<Rightarrow> nat \<Rightarrow> byte list \<Rightarrow> error + byte list" where
  "hexToBytes_loop hex i bytes =
     (if i < length hex then
        (case parseInt_string (substring hex i (i + 2)) 16 of
           None \<Rightarrow> Inl (InvalidHexString i (substring hex i (i + 2)))
         | Some byteValue \<Rightarrow> hexToBytes_loop hex (i + 2) (bytes[i div 2 := ToUint8 byteValue]))
      else Inr bytes)"
  by pat_completeness auto
termination
  by (relation "measure (\<lambda>(hex, i, bytes). length hex - i)") auto

declare hexToBytes_loop.simps [simp del]

definition hexToBytes :: "jsstring \<Rightarrow> error + byte list" where
  "hexToBytes hex0 =
     (let hex = (if length hex0 mod 2 \<noteq> 0 then js ''0'' @ hex0 else hex0)
      in hexToBytes_loop hex 0 (replicate (length hex div 2) 0))"

section \<open>Bytes to text\<close>

text \<open>
  \<^verbatim>\<open>bytesToString\<close>: the UTF-8 decoder, and when that raises, one character per byte.
\<close>

definition bytesToString :: "platform \<Rightarrow> byte list \<Rightarrow> jsstring" where
  "bytesToString p bytes =
     (case TextDecoder_decode p bytes of
        Inr s \<Rightarrow> s
      | Inl e \<Rightarrow> map (\<lambda>b. ucast b) bytes)"

section \<open>The chain byte array\<close>

text \<open>
  \<^verbatim>\<open>BigInt(wordFelt).toString(16)\<close>, with a leading zero when the number of digits is
  odd. Both decoders of the chain byte array apply it to every word and to the pending
  word.
\<close>

definition felt_hex :: "jsval \<Rightarrow> error + jsstring" where
  "felt_hex wordFelt =
     (case BigInt wordFelt of
        Inl e \<Rightarrow> Inl e
      | Inr n \<Rightarrow>
          (let wordHex = bigint_toString 16 n
           in Inr (if length wordHex mod 2 \<noteq> 0 then js ''0'' @ wordHex else wordHex)))"

text \<open>
  The elements a \<^verbatim>\<open>for ... of\<close> loop visits. Both decoders loop over \<open>data\<close> after
  \<^verbatim>\<open>isCairoByteArray\<close> has found it to be an array.
\<close>

fun iterate :: "jsval \<Rightarrow> error + jsval list" where
  "iterate (JArr xs) = Inr xs"
| "iterate v = Inl TypeError"

text \<open>\<^verbatim>\<open>decodeCairoByteArray\<close>: the loop over the full words, accumulating text.\<close>

fun decodeCairoByteArray_words :: "platform \<Rightarrow> jsval list \<Rightarrow> jsstring \<Rightarrow> error + jsstring" where
  "decodeCairoByteArray_words p [] result = Inr result"
| "decodeCairoByteArray_words p (wordFelt # rest) result =
     (case felt_hex wordFelt of
        Inl e \<Rightarrow> Inl e
      | Inr wordHex \<Rightarrow>
          (case hexToBytes wordHex of
             Inl e \<Rightarrow> Inl e
           | Inr bytes \<Rightarrow> decodeCairoByteArray_words p rest (result @ bytesToString p bytes)))"

text \<open>The body of the \<^verbatim>\<open>try\<close> block of \<^verbatim>\<open>decodeCairoByteArray\<close>.\<close>

definition decodeCairoByteArray_try :: "platform \<Rightarrow> jsval \<Rightarrow> error + jsstring" where
  "decodeCairoByteArray_try p byteArray =
     (let data = get_property byteArray (js ''data'');
          pending_word = get_property byteArray (js ''pending_word'');
          pending_word_len = get_property byteArray (js ''pending_word_len'')
      in case iterate data of
           Inl e \<Rightarrow> Inl e
         | Inr ws \<Rightarrow>
             (case decodeCairoByteArray_words p ws [] of
                Inl e \<Rightarrow> Inl e
              | Inr result \<Rightarrow>
                  if truthy pending_word \<and> truthy pending_word_len then
                    (case parseInt pending_word_len of
                       Inl e \<Rightarrow> Inl e
                     | Inr None \<Rightarrow> Inr result
                     | Inr (Some pendingWordLen) \<Rightarrow>
                         if pendingWordLen > 0 then
                           (case felt_hex pending_word of
                              Inl e \<Rightarrow> Inl e
                            | Inr pendingHex \<Rightarrow>
                                (case hexToBytes pendingHex of
                                   Inl e \<Rightarrow> Inl e
                                 | Inr bytes \<Rightarrow>
                                     Inr (result
                                          @ bytesToString p (take (nat pendingWordLen) bytes))))
                         else Inr result)
                  else Inr result))"

definition decodeCairoByteArray :: "platform \<Rightarrow> jsval \<Rightarrow> jsval" where
  "decodeCairoByteArray p byteArray =
     (if \<not> isCairoByteArray byteArray then JNull
      else case decodeCairoByteArray_try p byteArray of
             Inr result \<Rightarrow> JStr result
           | Inl e \<Rightarrow> JNull)"

text \<open>
  \<^verbatim>\<open>decodeCairoByteArrayContent\<close>: the loop over the full words, accumulating bytes.
\<close>

fun collect_words :: "jsval list \<Rightarrow> byte list \<Rightarrow> error + byte list" where
  "collect_words [] allBytes = Inr allBytes"
| "collect_words (wordFelt # rest) allBytes =
     (case felt_hex wordFelt of
        Inl e \<Rightarrow> Inl e
      | Inr wordHex \<Rightarrow>
          (case hexToBytes wordHex of
             Inl e \<Rightarrow> Inl e
           | Inr bytes \<Rightarrow> collect_words rest (allBytes @ bytes)))"

text \<open>The pending word of \<^verbatim>\<open>decodeCairoByteArrayContent\<close>.\<close>

definition collect_pending :: "jsval \<Rightarrow> jsval \<Rightarrow> byte list \<Rightarrow> error + byte list" where
  "collect_pending pending_word pending_word_len allBytes =
     (if truthy pending_word \<and> truthy pending_word_len then
        (case parseInt pending_word_len of
           Inl e \<Rightarrow> Inl e
         | Inr None \<Rightarrow> Inr allBytes
         | Inr (Some pendingWordLen) \<Rightarrow>
             if pendingWordLen > 0 then
               (case felt_hex pending_word of
                  Inl e \<Rightarrow> Inl e
                | Inr pendingHex \<Rightarrow>
                    (case hexToBytes pendingHex of
                       Inl e \<Rightarrow> Inl e
                     | Inr bytes \<Rightarrow> Inr (allBytes @ take (nat pendingWordLen) bytes)))
             else Inr allBytes)
      else Inr allBytes)"

text \<open>
  The byte-collection phase of \<^verbatim>\<open>decodeCairoByteArrayContent\<close>: the first part of its
  \<^verbatim>\<open>try\<close> block, up to \<^verbatim>\<open>new Uint8Array(allBytes)\<close>.
\<close>

definition collectBytes :: "jsval \<Rightarrow> error + byte list" where
  "collectBytes byteArray =
     (let data = get_property byteArray (js ''data'');
          pending_word = get_property byteArray (js ''pending_word'');
          pending_word_len = get_property byteArray (js ''pending_word_len'')
      in case iterate data of
           Inl e \<Rightarrow> Inl e
         | Inr ws \<Rightarrow>
             (case collect_words ws [] of
                Inl e \<Rightarrow> Inl e
              | Inr allBytes \<Rightarrow> collect_pending pending_word pending_word_len allBytes))"

definition decodeCairoByteArrayContent :: "platform \<Rightarrow> jsval \<Rightarrow> jsval" where
  "decodeCairoByteArrayContent p byteArray =
     (if \<not> isCairoByteArray byteArray then JNull
      else case collectBytes byteArray of
             Inl e \<Rightarrow> JNull
           | Inr byteData \<Rightarrow>
               (let stringRepresentation = bytesToString p byteData
                in case decodeCbor p byteData of
                     Inr cborDecoded \<Rightarrow> cborDecoded
                   | Inl cborError \<Rightarrow> JStr stringRepresentation))"

section \<open>The structured decoder's entry point\<close>

text \<open>The pattern \<^verbatim>\<open>/^(0x)?[0-9a-fA-F]+$/\<close>, with and without the optional group.\<close>

definition is_hex_digit :: "16 word \<Rightarrow> bool" where
  "is_hex_digit c =
     ((0x30 \<le> c \<and> c \<le> 0x39) \<or> (0x61 \<le> c \<and> c \<le> 0x66) \<or> (0x41 \<le> c \<and> c \<le> 0x46))"

definition hex_pattern :: "jsstring \<Rightarrow> bool" where
  "hex_pattern s =
     ((startsWith s (js ''0x'') \<and> drop 2 s \<noteq> [] \<and> list_all is_hex_digit (drop 2 s))
      \<or> (s \<noteq> [] \<and> list_all is_hex_digit s))"

text \<open>The test \<^verbatim>\<open>value instanceof Uint8Array\<close>.\<close>

fun instanceof_Uint8Array :: "jsval \<Rightarrow> bool" where
  "instanceof_Uint8Array (JBytes bs) = True"
| "instanceof_Uint8Array v = False"

text \<open>
  \<^verbatim>\<open>Number(item)\<close> on an item of the array: a Number is itself, a string is parsed. The
  source applies it to Numbers and strings only.
\<close>

fun Number :: "platform \<Rightarrow> jsval \<Rightarrow> jsval" where
  "Number p (JStr s) = Number_of_string p s"
| "Number p v = v"

text \<open>The test of \<^verbatim>\<open>value.every\<close>.\<close>

definition is_numeric_item :: "platform \<Rightarrow> jsval \<Rightarrow> bool" where
  "is_numeric_item p item =
     (typeof item = TNumber \<or> (typeof item = TString \<and> Number p item \<noteq> JNaN))"

text \<open>An element of \<^verbatim>\<open>new Uint8Array(numbers)\<close>: NaN is stored as zero.\<close>

fun number_to_byte :: "jsval \<Rightarrow> byte" where
  "number_to_byte (JNum n) = ToUint8 (number_value n)"
| "number_to_byte v = 0"

text \<open>
  The first half of the \<^verbatim>\<open>try\<close> block of \<^verbatim>\<open>decodeCborMetadata\<close>: the input becomes
  the variable \<open>bytes\<close> (which may stay undefined), or is returned at once, or is
  refused.
\<close>

datatype conversion = Bytes "byte list option" | Return jsval

definition to_bytes :: "platform \<Rightarrow> jsval \<Rightarrow> error + conversion" where
  "to_bytes p v =
     (if instanceof_Uint8Array v then
        (case v of JBytes bs \<Rightarrow> Inr (Bytes (Some bs)) | _ \<Rightarrow> Inr (Bytes None))
      else if Array_isArray v then
        (case v of
           JArr items \<Rightarrow>
             if list_all (is_numeric_item p) items
             then Inr (Bytes (Some (map (\<lambda>item. number_to_byte (Number p item)) items)))
             else Inl InvalidByteArray
         | _ \<Rightarrow> Inr (Bytes None))
      else if typeof v = TString then
        (case v of
           JStr s \<Rightarrow>
             if hex_pattern s then
               (let hexString = (if startsWith s (js ''0x'') then slice_from s 2 else s)
                in case hexToBytes hexString of
                     Inl e \<Rightarrow> Inl e
                   | Inr bs \<Rightarrow> Inr (Bytes (Some bs)))
             else Inr (Bytes (Some (TextEncoder_encode p s)))
         | _ \<Rightarrow> Inr (Bytes None))
      else if typeof v = TObject \<and> v \<noteq> JNull then Inr (Return v)
      else Inl (UnsupportedValueType (typeof v)))"

text \<open>
  \<^verbatim>\<open>decodeCborMetadata\<close>: whatever the \<^verbatim>\<open>try\<close> block raises is caught and raised again
  as a new error around its message.
\<close>

definition decodeCborMetadata_try :: "platform \<Rightarrow> jsval \<Rightarrow> error + jsval" where
  "decodeCborMetadata_try p v =
     (case to_bytes p v of
        Inl e \<Rightarrow> Inl e
      | Inr (Return r) \<Rightarrow> Inr r
      | Inr (Bytes None) \<Rightarrow> Inl FailedToConvert
      | Inr (Bytes (Some bs)) \<Rightarrow> decodeCbor p bs)"

definition decodeCborMetadata :: "platform \<Rightarrow> jsval \<Rightarrow> error + jsval" where
  "decodeCborMetadata p v =
     (if \<not> truthy v then Inr JNull
      else case decodeCborMetadata_try p v of
             Inr r \<Rightarrow> Inr r
           | Inl e \<Rightarrow> Inl (CborDecodingError e))"

section \<open>Text rendering\<close>

text \<open>\<^verbatim>\<open>jsonReplacer\<close>: a BigInt becomes its \<^verbatim>\<open>toString()\<close>, the decimal numeral.\<close>

definition jsonReplacer :: "jsstring \<Rightarrow> jsval \<Rightarrow> jsval" where
  "jsonReplacer key v =
     (if typeof v = TBigint then
        (case v of JBigInt n \<Rightarrow> JStr (bigint_toString 10 n) | _ \<Rightarrow> v)
      else v)"

text \<open>The method call \<^verbatim>\<open>value.toString()\<close> and the call \<^verbatim>\<open>String(value)\<close>.\<close>

definition call_toString :: "jsval \<Rightarrow> error + jsval" where
  "call_toString v = (case ToString v of Inl e \<Rightarrow> Inl e | Inr s \<Rightarrow> Inr (JStr s))"

text \<open>The last resort of \<^verbatim>\<open>byteArrayToString\<close>, inside its second \<^verbatim>\<open>catch\<close>.\<close>

definition byteArrayToString_last_resort :: "platform \<Rightarrow> jsval \<Rightarrow> error + jsval" where
  "byteArrayToString_last_resort p v =
     (if typeof v = TObject \<and> isCairoByteArray v then
        (let cairoString = decodeCairoByteArrayContent p v
         in if truthy cairoString then Inr cairoString else call_toString v)
      else call_toString v)"

text \<open>The inner \<^verbatim>\<open>try\<close> block of \<^verbatim>\<open>byteArrayToString\<close>.\<close>

definition byteArrayToString_cbor :: "platform \<Rightarrow> jsval \<Rightarrow> error + jsval" where
  "byteArrayToString_cbor p v =
     (case decodeCborMetadata p v of
        Inl e \<Rightarrow> Inl e
      | Inr decodedValue \<Rightarrow>
          (let cairoString =
                 (if isCairoByteArray decodedValue
                  then decodeCairoByteArrayContent p decodedValue else JUndefined)
           in if isCairoByteArray decodedValue \<and> truthy cairoString then Inr cairoString
              else if typeof decodedValue = TString then Inr decodedValue
              else JSON_stringify p decodedValue jsonReplacer))"

definition byteArrayToString :: "platform \<Rightarrow> jsval \<Rightarrow> error + jsval" where
  "byteArrayToString p v =
     (if \<not> truthy v then Inr (JStr [])
      else if typeof v = TString then Inr v
      else if typeof v = TObject \<and> has_property (js ''toString'') v = Some True
        then call_toString v
      else case decodeShortString p v of
             Inr s \<Rightarrow> Inr (JStr s)
           | Inl shortStringError \<Rightarrow>
               (case byteArrayToString_cbor p v of
                  Inr r \<Rightarrow> Inr r
                | Inl cborError \<Rightarrow> byteArrayToString_last_resort p v))"

section \<open>A reference runtime\<close>

text \<open>
  One concrete \<open>platform\<close>, on which the decoders can be run on examples. The theorems
  about the decoders hold for every platform; this one only supplies inputs.
\<close>

text \<open>
  Modelled from the spec: the structured decoder (the \<^verbatim>\<open>decode\<close> function of the cbor2
  library, which the repository imports and does not contain), for the self-describing
  binary container format of section 4.2: unsigned and negative integers, byte strings,
  text strings, arrays, maps and the simple values, all of definite length, with
  arbitrary nesting; a truncated container, a length mismatch, an invalid type tag and
  trailing bytes are decode failures. Floats, tags and indefinite lengths are outside
  this model, which refuses them.
\<close>

definition be_value :: "byte list \<Rightarrow> nat" where
  "be_value bs = foldl (\<lambda>acc b. acc * 256 + unat b) 0 bs"

definition cbor_argument :: "nat \<Rightarrow> byte list \<Rightarrow> (nat \<times> byte list) option" where
  "cbor_argument ai bs =
     (if ai < 24 then Some (ai, bs)
      else if 27 < ai then None
      else let k = 2 ^ (ai - 24)
           in if length bs < k then None else Some (be_value (take k bs), drop k bs))"

text \<open>Text of a CBOR string: the ASCII bytes; other bytes are outside this model.\<close>

definition ascii_text :: "byte list \<Rightarrow> jsstring option" where
  "ascii_text bs = (if list_all (\<lambda>b. b < 0x80) bs then Some (map (\<lambda>b. ucast b) bs) else None)"

fun cbor_item :: "nat \<Rightarrow> byte list \<Rightarrow> (jsval \<times> byte list) option"
  and cbor_items :: "nat \<Rightarrow> nat \<Rightarrow> byte list \<Rightarrow> (jsval list \<times> byte list) option"
  and cbor_pairs :: "nat \<Rightarrow> nat \<Rightarrow> byte list \<Rightarrow> ((jsstring \<times> jsval) list \<times> byte list) option"
where
  "cbor_item 0 bs = None"
| "cbor_item (Suc fuel) [] = None"
| "cbor_item (Suc fuel) (b # rest) =
     (let major = unat b div 32; ai = unat b mod 32
      in if major = 7 then
           (if ai = 20 then Some (JBool False, rest)
            else if ai = 21 then Some (JBool True, rest)
            else if ai = 22 then Some (JNull, rest)
            else if ai = 23 then Some (JUndefined, rest)
            else None)
         else
           (case cbor_argument ai rest of
              None \<Rightarrow> None
            | Some (n, rest') \<Rightarrow>
                if major = 0 then
                  Some (if n < 2 ^ 53 then JNum (safe (int n)) else JBigInt (int n), rest')
                else if major = 1 then
                  Some (if n < 2 ^ 53 then JNum (safe (- 1 - int n)) else JBigInt (- 1 - int n), rest')
                else if major = 2 then
                  (if length rest' < n then None
                   else Some (JBytes (take n rest'), drop n rest'))
                else if major = 3 then
                  (if length rest' < n then None
                   else case ascii_text (take n rest') of
                          None \<Rightarrow> None
                        | Some s \<Rightarrow> Some (JStr s, drop n rest'))
                else if major = 4 then
                  (case cbor_items fuel n rest' of
                     None \<Rightarrow> None
                   | Some (xs, rest'') \<Rightarrow> Some (JArr xs, rest''))
                else if major = 5 then
                  (case cbor_pairs fuel n rest' of
                     None \<Rightarrow> None
                   | Some (kvs, rest'') \<Rightarrow> Some (JObj kvs, rest''))
                else None))"
| "cbor_items 0 n bs = None"
| "cbor_items (Suc fuel) 0 bs = Some ([], bs)"
| "cbor_items (Suc fuel) (Suc n) bs =
     (case cbor_item fuel bs of
        None \<Rightarrow> None
      | Some (x, rest) \<Rightarrow>
          (case cbor_items fuel n rest of
             None \<Rightarrow> None
           | Some (xs, rest') \<Rightarrow> Some (x # xs, rest')))"
| "cbor_pairs 0 n bs = None"
| "cbor_pairs (Suc fuel) 0 bs = Some ([], bs)"
| "cbor_pairs (Suc fuel) (Suc n) bs =
     (case cbor_item fuel bs of
        Some (JStr k, rest) \<Rightarrow>
          (case cbor_item fuel rest of
             None \<Rightarrow> None
           | Some (x, rest') \<Rightarrow>
               (case cbor_pairs fuel n rest' of
                  None \<Rightarrow> None
                | Some (kvs, rest'') \<Rightarrow> Some ((k, x) # kvs, rest'')))
      | _ \<Rightarrow> None)"

definition cbor_decode :: "byte list \<Rightarrow> error + jsval" where
  "cbor_decode bs =
     (case cbor_item (2 * length bs + 2) bs of
        Some (v, []) \<Rightarrow> Inr v
      | Some (v, b # rest) \<Rightarrow> Inl (LibraryError (js ''Extra data in input''))
      | None \<Rightarrow> Inl (LibraryError (js ''Invalid or truncated CBOR'')))"

text \<open>
  Modelled from the spec: the short-string decoder (\<^verbatim>\<open>shortString.decodeShortString\<close> of
  the starknet library, which the repository imports and does not contain), stage 3 of
  section 4.3 and the glossary: a single token that is an integer of at most 31 bytes is
  decoded directly to the text of its bytes; any other input is refused.
\<close>

definition short_string_decode :: "jsval \<Rightarrow> error + jsstring" where
  "short_string_decode v =
     (if typeof v = TObject then Inl (LibraryError (js ''not a short string''))
      else case BigInt v of
        Inl e \<Rightarrow> Inl (LibraryError (js ''not a short string''))
      | Inr n \<Rightarrow>
          if n < 0 \<or> 256 ^ 31 \<le> n then Inl (LibraryError (js ''not a short string''))
          else (case felt_hex (JBigInt n) of
                  Inl e \<Rightarrow> Inl e
                | Inr h \<Rightarrow>
                    (case hexToBytes h of
                       Inl e \<Rightarrow> Inl e
                     | Inr bs \<Rightarrow> Inr (map (\<lambda>b. ucast b) bs))))"

text \<open>
  Modelled from the spec: the UTF-8 text rendering of bytes (\<^verbatim>\<open>TextDecoder\<close>, part of the
  browser), exact on ASCII bytes; every other byte is rendered as U+FFFD, which is what
  the decoder does with a byte that belongs to no well-formed sequence.
\<close>

definition utf8_decode_ascii :: "byte list \<Rightarrow> jsstring" where
  "utf8_decode_ascii bs = map (\<lambda>b. if b < 0x80 then ucast b else 0xFFFD) bs"

text \<open>
  Modelled from the spec: the UTF-8 encoding of a string (\<^verbatim>\<open>TextEncoder\<close>, part of the
  browser): one to three bytes for a code unit, four for a surrogate pair, and the
  encoding of U+FFFD for a lone surrogate.
\<close>

definition is_high_surrogate :: "16 word \<Rightarrow> bool" where
  "is_high_surrogate c = (0xD800 \<le> c \<and> c \<le> 0xDBFF)"

definition is_low_surrogate :: "16 word \<Rightarrow> bool" where
  "is_low_surrogate c = (0xDC00 \<le> c \<and> c \<le> 0xDFFF)"

definition utf8_of_code_point :: "nat \<Rightarrow> byte list" where
  "utf8_of_code_point u =
     (if u < 0x80 then [of_nat u]
      else if u < 0x800 then [of_nat (0xC0 + u div 64), of_nat (0x80 + u mod 64)]
      else if u < 0x10000 then
        [of_nat (0xE0 + u div 4096), of_nat (0x80 + u div 64 mod 64), of_nat (0x80 + u mod 64)]
      else [of_nat (0xF0 + u div 262144), of_nat (0x80 + u div 4096 mod 64),
            of_nat (0x80 + u div 64 mod 64), of_nat (0x80 + u mod 64)])"

fun utf8_encode :: "jsstring \<Rightarrow> byte list" where
  "utf8_encode [] = []"
| "utf8_encode [c] =
     (if is_high_surrogate c \<or> is_low_surrogate c then utf8_of_code_point 0xFFFD
      else utf8_of_code_point (unat c))"
| "utf8_encode (c # d # cs) =
     (if is_high_surrogate c \<and> is_low_surrogate d then
        utf8_of_code_point (0x10000 + (unat c - 0xD800) * 1024 + (unat d - 0xDC00))
        @ utf8_encode cs
      else if is_high_surrogate c \<or> is_low_surrogate c then
        utf8_of_code_point 0xFFFD @ utf8_encode (d # cs)
      else utf8_of_code_point (unat c) @ utf8_encode (d # cs))"

text \<open>
  Modelled from the spec: \<^verbatim>\<open>Number\<close> applied to a string (part of the language), on the
  literals of the safe integers, which are the Numbers of this model: the trimmed string
  is empty (zero), a \<open>0x\<close>, \<open>0o\<close> or \<open>0b\<close> literal or a signed decimal numeral; any other
  string is taken as NaN.
\<close>

definition number_of_string :: "jsstring \<Rightarrow> jsval" where
  "number_of_string s =
     (case StringToBigInt s of
        Inl e \<Rightarrow> JNaN
      | Inr n \<Rightarrow> if - (2 ^ 53) \<le> n \<and> n \<le> 2 ^ 53 then JNum (safe n) else JNaN)"

text \<open>
  Modelled from the spec: the textual-serialization routine (\<^verbatim>\<open>JSON.stringify\<close> with a
  replacer, part of the language) of section 6. The replacer sees every value before
  it is written. A BigInt that the replacer leaves in place is a TypeError; an
  \<^verbatim>\<open>undefined\<close> is left out of an object and written as \<open>null\<close> in an array. The depth
  of nesting is bounded, as the call stack is.
\<close>

definition json_escape :: "16 word \<Rightarrow> jsstring" where
  "json_escape c =
     (if c = 0x08 then [0x5C, 0x62]
      else if c = 0x09 then [0x5C, 0x74]
      else if c = 0x0A then [0x5C, 0x6E]
      else if c = 0x0C then [0x5C, 0x66]
      else if c = 0x0D then [0x5C, 0x72]
      else if c = 0x22 then [0x5C, 0x22]
      else if c = 0x5C then [0x5C, 0x5C]
      else if c < 0x20 \<or> is_high_surrogate c \<or> is_low_surrogate c then
        [0x5C, 0x75] @ map (\<lambda>k. digit_char (unat c div 16 ^ k mod 16)) [3, 2, 1, 0]
      else [c])"

definition json_quote :: "jsstring \<Rightarrow> jsstring" where
  "json_quote s = [0x22] @ concat (map json_escape s) @ [0x22]"

fun own_properties :: "(jsstring \<times> jsval) list \<Rightarrow> jsstring list \<Rightarrow> (jsstring \<times> jsval) list" where
  "own_properties [] seen = []"
| "own_properties ((k, v) # kvs) seen =
     (if k \<in> set seen then own_properties kvs seen else (k, v) # own_properties kvs (k # seen))"

fun json_serialize ::
  "nat \<Rightarrow> (jsstring \<Rightarrow> jsval \<Rightarrow> jsval) \<Rightarrow> jsstring \<Rightarrow> jsval \<Rightarrow> error + jsstring option"
where
  "json_serialize 0 replacer key v = Inl RangeError"
| "json_serialize (Suc depth) replacer key v =
     (case replacer key v of
        JUndefined \<Rightarrow> Inr None
      | JNull \<Rightarrow> Inr (Some (js ''null''))
      | JBool b \<Rightarrow> Inr (Some (if b then js ''true'' else js ''false''))
      | JNum n \<Rightarrow> Inr (Some (number_toString n))
      | JNaN \<Rightarrow> Inr (Some (js ''null''))
      | JBigInt n \<Rightarrow> Inl TypeError
      | JStr s \<Rightarrow> Inr (Some (json_quote s))
      | JBytes bs \<Rightarrow>
          Inr (Some (js ''{''
                     @ join_comma (map (\<lambda>(i, b). json_quote (bigint_toString 10 (int i)) @ js '':''
                                                  @ bigint_toString 10 (uint b))
                                       (enumerate 0 bs))
                     @ js ''}''))
      | JArr xs \<Rightarrow>
          (case sequence_err
                  (map (\<lambda>(i, x). json_serialize depth replacer (bigint_toString 10 (int i)) x)
                       (enumerate 0 xs)) of
             Inl e \<Rightarrow> Inl e
           | Inr parts \<Rightarrow>
               Inr (Some (js ''[''
                          @ join_comma (map (\<lambda>part. case part of None \<Rightarrow> js ''null''
                                                                  | Some t \<Rightarrow> t) parts)
                          @ js '']'')))
      | JObj kvs \<Rightarrow>
          (case sequence_err
                  (map (\<lambda>(k, x). case json_serialize depth replacer k x of
                                    Inl e \<Rightarrow> Inl e
                                  | Inr part \<Rightarrow> Inr (k, part))
                       (own_properties kvs [])) of
             Inl e \<Rightarrow> Inl e
           | Inr parts \<Rightarrow>
               Inr (Some (js ''{''
                          @ join_comma
                              (concat (map (\<lambda>(k, part). case part of
                                                           None \<Rightarrow> []
                                                         | Some t \<Rightarrow> [json_quote k @ js '':'' @ t])
                                           parts))
                          @ js ''}''))))"

definition json_stringify :: "jsval \<Rightarrow> (jsstring \<Rightarrow> jsval \<Rightarrow> jsval) \<Rightarrow> error + jsval" where
  "json_stringify v replacer =
     (case json_serialize 1000 replacer [] v of
        Inl e \<Rightarrow> Inl e
      | Inr None \<Rightarrow> Inr JUndefined
      | Inr (Some t) \<Rightarrow> Inr (JStr t))"

definition reference_platform :: platform where
  "reference_platform =
     \<lparr> decodeCbor = cbor_decode,
       decodeShortString = short_string_decode,
       TextDecoder_decode = (\<lambda>bs. Inr (utf8_decode_ascii bs)),
       TextEncoder_encode = utf8_encode,
       Number_of_string = number_of_string,
       JSON_stringify = json_stringify \<rparr>"

text \<open>A chain byte-array record with its three fields.\<close>

definition byte_array_record :: "jsval list \<Rightarrow> jsval \<Rightarrow> jsval \<Rightarrow> jsval" where
  "byte_array_record ws pending_word pending_word_len =
     JObj [(js ''data'', JArr ws), (js ''pending_word'', pending_word),
           (js ''pending_word_len'', pending_word_len)]"

section \<open>Notions used in the statements\<close>

text \<open>The big-endian bytes of a natural number, without leading zero bytes (one byte for zero).\<close>

function be_bytes :: "nat \<Rightarrow> byte list" where
  "be_bytes n = (if n < 256 then [of_nat n] else be_bytes (n div 256) @ [of_nat (n mod 256)])"
  by pat_completeness auto
termination
  by (relation "measure (\<lambda>n. n)") auto

declare be_bytes.simps [simp del]

text \<open>A string of even length read two characters at a time, as \<^verbatim>\<open>hexToBytes\<close> reads it.\<close>

fun parse_pairs :: "jsstring \<Rightarrow> byte list option" where
  "parse_pairs (c # d # cs) =
     (case parseInt_string [c, d] 16 of
        None \<Rightarrow> None
      | Some v \<Rightarrow> (case parse_pairs cs of None \<Rightarrow> None | Some bs \<Rightarrow> Some (ToUint8 v # bs)))"
| "parse_pairs cs = Some []"

text \<open>The leading zero that both decoders put before a hexadecimal numeral of odd length.\<close>

definition pad_even :: "jsstring \<Rightarrow> jsstring" where
  "pad_even h = (if length h mod 2 \<noteq> 0 then js ''0'' @ h else h)"

text \<open>
  A field that holds the integer \<open>k\<close>: as a Number, as a BigInt or as its decimal numeral.
\<close>

definition holds_integer :: "jsval \<Rightarrow> int \<Rightarrow> bool" where
  "holds_integer v k = (v = JNum (safe k) \<or> v = JBigInt k \<or> v = JStr (bigint_toString 10 k))"

text \<open>The characters \<open>0\<close> to \<open>9\<close>.\<close>

definition is_decimal_char :: "16 word \<Rightarrow> bool" where
  "is_decimal_char c = (0x30 \<le> c \<and> c \<le> 0x39)"

section \<open>Properties of digits and of parsing\<close>

lemma number_value_safe [simp]:
  "- (2 ^ 53) \<le> n \<Longrightarrow> n \<le> 2 ^ 53 \<Longrightarrow> number_value (safe n) = n"
  by (simp add: number_value_def safe_def Abs_safe_int_inverse)

lemma less_16_cases:
  "d < 16 \<Longrightarrow> d = 0 \<or> d = 1 \<or> d = 2 \<or> d = 3 \<or> d = 4 \<or> d = 5 \<or> d = 6 \<or> d = 7 \<or> d = 8
     \<or> d = 9 \<or> d = 10 \<or> d = 11 \<or> d = 12 \<or> d = 13 \<or> d = 14 \<or> d = (15::nat)"
  by arith

lemma digit_value_digit_char: "d < 16 \<Longrightarrow> digit_value (digit_char d) = Some d"
  by (drule less_16_cases) (elim disjE; simp add: digit_char_def digit_value_def)

lemma digit_char_not_space: "d < 16 \<Longrightarrow> \<not> is_StrWhiteSpaceChar (digit_char d)"
  by (drule less_16_cases) (elim disjE; simp add: digit_char_def is_StrWhiteSpaceChar_def)

lemma digit_char_not_sign: "d < 16 \<Longrightarrow> digit_char d \<noteq> 0x2D \<and> digit_char d \<noteq> 0x2B"
  by (drule less_16_cases) (elim disjE; simp add: digit_char_def)

lemma digit_char_not_x: "d < 16 \<Longrightarrow> digit_char d \<noteq> 0x78 \<and> digit_char d \<noteq> 0x58"
  by (drule less_16_cases) (elim disjE; simp add: digit_char_def)

lemma js_literals:
  "js ''-'' = [0x2D]" "js ''+'' = [0x2B]" "js ''0'' = [0x30]"
  "js ''0x'' = [0x30, 0x78]" "js ''0X'' = [0x30, 0x58]"
  "js ''0o'' = [0x30, 0x6F]" "js ''0O'' = [0x30, 0x4F]"
  "js ''0b'' = [0x30, 0x62]" "js ''0B'' = [0x30, 0x42]"
  by (simp_all add: js_def)

lemma parseInt_hex_pair:
  assumes "a < 16" "b < 16"
  shows "parseInt_string [digit_char a, digit_char b] 16 = Some (int (a * 16 + b))"
  using assms digit_char_not_space [of a] digit_char_not_sign [of a] digit_char_not_x [of b]
  by (simp add: parseInt_string_def trim_start_def startsWith_def js_literals
      is_radix_digit_def digit_value_digit_char Let_def)

section \<open>Properties of the rendering of large integers\<close>

lemma less_10_cases:
  "d < 10 \<Longrightarrow> d = 0 \<or> d = 1 \<or> d = 2 \<or> d = 3 \<or> d = 4 \<or> d = 5 \<or> d = 6 \<or> d = 7 \<or> d = 8
     \<or> d = (9::nat)"
  by arith

lemma is_decimal_digit_char: "d < 10 \<Longrightarrow> is_decimal_char (digit_char d)"
  by (drule less_10_cases) (elim disjE; simp add: digit_char_def is_decimal_char_def)

lemma decimal_radix_digits: "list_all is_decimal_char (radix_digits 10 n)"
proof (induction "10::nat" n rule: radix_digits.induct)
  case (1 n)
  show ?case
  proof (cases "n < 10")
    case True
    then show ?thesis
      by (subst radix_digits.simps) (simp add: is_decimal_digit_char)
  next
    case False
    then have "list_all is_decimal_char (radix_digits 10 (n div 10))"
      by (intro "1.hyps") simp
    then show ?thesis
      using False by (subst radix_digits.simps) (simp add: is_decimal_digit_char)
  qed
qed

lemma radix_digits_not_Nil: "radix_digits r n \<noteq> []"
  by (subst radix_digits.simps) simp

lemma read_digits_append:
  "read_digits r acc (xs @ ys) =
     (case read_digits r acc xs of None \<Rightarrow> None | Some a \<Rightarrow> read_digits r a ys)"
  by (induction xs arbitrary: acc) (simp_all split: option.splits)

lemma read_digits_radix_digits: "read_digits 10 0 (radix_digits 10 n) = Some n"
proof (induction "10::nat" n rule: radix_digits.induct)
  case (1 n)
  show ?case
  proof (cases "n < 10")
    case True
    then show ?thesis
      by (subst radix_digits.simps) (simp add: digit_value_digit_char)
  next
    case False
    then have "read_digits 10 0 (radix_digits 10 (n div 10)) = Some (n div 10)"
      by (intro "1.hyps") simp
    then show ?thesis
      using False
      by (subst radix_digits.simps) (simp add: read_digits_append digit_value_digit_char)
  qed
qed

lemma decimal_char_facts:
  assumes "is_decimal_char c"
  shows "\<not> is_StrWhiteSpaceChar c" and "c \<noteq> 0x2D" and "c \<noteq> 0x2B"
    and "c \<noteq> 0x78" and "c \<noteq> 0x58" and "c \<noteq> 0x6F" and "c \<noteq> 0x4F" and "c \<noteq> 0x62" and "c \<noteq> 0x42"
proof -
  have "48 \<le> unat c" and "unat c \<le> 57"
    using assms by (simp_all add: is_decimal_char_def word_le_nat_alt)
  then show "\<not> is_StrWhiteSpaceChar c"
    by (auto simp: is_StrWhiteSpaceChar_def word_le_nat_alt)
  show "c \<noteq> 0x2D" and "c \<noteq> 0x2B" and "c \<noteq> 0x78" and "c \<noteq> 0x58" and "c \<noteq> 0x6F"
    and "c \<noteq> 0x4F" and "c \<noteq> 0x62" and "c \<noteq> 0x42"
    using assms by (auto simp: is_decimal_char_def)
qed

lemma trim_self:
  assumes "s \<noteq> []" and "\<not> is_StrWhiteSpaceChar (hd s)" and "\<not> is_StrWhiteSpaceChar (last s)"
  shows "trim s = s"
proof -
  have "trim_start s = s"
    using assms(2) by (simp add: trim_start_def dropWhile_eq_self_iff)
  moreover have "dropWhile is_StrWhiteSpaceChar (rev s) = rev s"
    using assms(1,3) by (simp add: dropWhile_eq_self_iff hd_rev)
  ultimately show ?thesis
    by (simp add: trim_def)
qed

lemma no_prefix_decimal:
  assumes "list_all is_decimal_char s"
  shows "take 2 s \<noteq> [a, b] \<or> is_decimal_char b"
proof (cases s)
  case Nil
  then show ?thesis by simp
next
  case (Cons c cs)
  then show ?thesis
    using assms by (cases cs) auto
qed

lemma StringToBigInt_decimal:
  assumes dec: "list_all is_decimal_char s" and ne: "s \<noteq> []"
  shows "StringToBigInt s = unsigned_literal 10 s"
proof -
  have hd: "is_decimal_char (hd s)" and last: "is_decimal_char (last s)"
    using dec ne by (simp_all add: list_all_iff)
  have trim: "trim s = s"
    using ne hd last by (intro trim_self) (simp_all add: decimal_char_facts)
  have second: "\<And>a b. take (Suc (Suc 0)) s = [a, b] \<Longrightarrow> is_decimal_char b"
    using no_prefix_decimal [OF dec] by (simp add: numeral_2_eq_2)
  have first: "take (Suc 0) s = [hd s]"
    using ne by (cases s) simp_all
  show ?thesis
    using ne second decimal_char_facts [OF hd]
    by (auto simp: StringToBigInt_def trim startsWith_def js_literals first is_decimal_char_def
        dest!: second)
qed

lemma StringToBigInt_minus_decimal:
  assumes dec: "list_all is_decimal_char s" and ne: "s \<noteq> []"
  shows "StringToBigInt (0x2D # s) =
         (case unsigned_literal 10 s of Inl e \<Rightarrow> Inl e | Inr n \<Rightarrow> Inr (- n))"
proof -
  have last: "is_decimal_char (last s)"
    using dec ne by (simp add: list_all_iff)
  have minus: "\<not> is_StrWhiteSpaceChar 0x2D"
    by (simp add: is_StrWhiteSpaceChar_def)
  have trim: "trim (0x2D # s) = 0x2D # s"
    using ne decimal_char_facts(1) [OF last] minus by (intro trim_self) simp_all
  show ?thesis
    by (simp add: StringToBigInt_def trim startsWith_def js_literals)
qed

lemma StringToBigInt_bigint_toString: "StringToBigInt (bigint_toString 10 n) = Inr n"
proof (cases "n < 0")
  case True
  then show ?thesis
    by (simp add: bigint_toString_def StringToBigInt_minus_decimal decimal_radix_digits
        radix_digits_not_Nil unsigned_literal_def read_digits_radix_digits)
next
  case False
  then show ?thesis
    by (simp add: bigint_toString_def StringToBigInt_decimal decimal_radix_digits
        radix_digits_not_Nil unsigned_literal_def read_digits_radix_digits)
qed

text \<open>
  Claim C8. For every BigInt \<open>n\<close> and every key, \<^verbatim>\<open>jsonReplacer\<close> returns the string of the
  decimal digits of \<open>n\<close>, which is exact: read back as an integer it is \<open>n\<close> again. For
  \<open>12345678901234567890\<close>, which needs more than 53 bits, it is the string
  \<open>12345678901234567890\<close>.
\<close>

theorem jsonReplacer_bigint_exact:
  "jsonReplacer key (JBigInt n) = JStr (bigint_toString 10 n) \<and>
   StringToBigInt (bigint_toString 10 n) = Inr n \<and>
   jsonReplacer key (JBigInt 12345678901234567890) = JStr (js ''12345678901234567890'')"
  by (simp add: jsonReplacer_def StringToBigInt_bigint_toString)
     (simp add: bigint_toString_def radix_digits.simps digit_char_def js_def)

section \<open>Properties of \<^verbatim>\<open>parseInt\<close> on decimal numerals\<close>

lemma decimal_is_radix_digit: "is_decimal_char c \<Longrightarrow> is_radix_digit 10 c"
proof -
  assume "is_decimal_char c"
  then have "48 \<le> unat c" and "unat c \<le> 57" and "0x30 \<le> c \<and> c \<le> 0x39"
    by (simp_all add: is_decimal_char_def word_le_nat_alt)
  then show ?thesis
    by (simp add: is_radix_digit_def digit_value_def)
qed

lemma parseInt_string_digits:
  assumes dec: "list_all is_decimal_char s" and ne: "s \<noteq> []"
  shows "parseInt_string s 0 = map_option int (read_digits 10 0 s)"
proof -
  have hd: "is_decimal_char (hd s)"
    using dec ne by (simp add: list_all_iff)
  have start: "trim_start s = s"
    using decimal_char_facts(1) [OF hd] by (simp add: trim_start_def dropWhile_eq_self_iff)
  have first: "take (Suc 0) s = [hd s]"
    using ne by (cases s) simp_all
  have second: "\<And>a b. take (Suc (Suc 0)) s = [a, b] \<Longrightarrow> is_decimal_char b"
    using no_prefix_decimal [OF dec] by (simp add: numeral_2_eq_2)
  have nopre: "\<not> startsWith s (js ''0x'')" "\<not> startsWith s (js ''0X'')"
    using second by (auto simp: startsWith_def js_literals is_decimal_char_def)
  have nosign: "\<not> startsWith s (js ''-'')" "\<not> startsWith s (js ''+'')"
    using decimal_char_facts(2,3) [OF hd] by (simp_all add: startsWith_def js_literals first)
  have all: "takeWhile (is_radix_digit 10) s = s"
    using dec by (simp add: takeWhile_eq_all_conv list_all_iff decimal_is_radix_digit)
  show ?thesis
    using ne by (simp add: parseInt_string_def start nopre nosign all Let_def split: option.splits)
qed

lemma parseInt_string_minus_digits:
  assumes dec: "list_all is_decimal_char s" and ne: "s \<noteq> []"
  shows "parseInt_string (0x2D # s) 0 = map_option (\<lambda>n. - int n) (read_digits 10 0 s)"
proof -
  have minus: "\<not> is_StrWhiteSpaceChar 0x2D"
    by (simp add: is_StrWhiteSpaceChar_def)
  have second: "\<And>a b. take (Suc (Suc 0)) s = [a, b] \<Longrightarrow> is_decimal_char b"
    using no_prefix_decimal [OF dec] by (simp add: numeral_2_eq_2)
  have nopre: "\<not> startsWith s (js ''0x'')" "\<not> startsWith s (js ''0X'')"
    using second by (auto simp: startsWith_def js_literals is_decimal_char_def)
  have all: "takeWhile (is_radix_digit 10) s = s"
    using dec by (simp add: takeWhile_eq_all_conv list_all_iff decimal_is_radix_digit)
  have start: "trim_start (0x2D # s) = 0x2D # s"
    using minus by (simp add: trim_start_def)
  have sign: "startsWith (0x2D # s) (js ''-'')"
    by (simp add: startsWith_def js_literals)
  show ?thesis
    using ne by (simp add: parseInt_string_def start sign nopre all Let_def split: option.splits)
qed

lemma parseInt_string_decimal: "parseInt_string (bigint_toString 10 k) 0 = Some k"
proof (cases "k < 0")
  case True
  then show ?thesis
    by (simp add: bigint_toString_def parseInt_string_minus_digits decimal_radix_digits
        radix_digits_not_Nil read_digits_radix_digits)
next
  case False
  then show ?thesis
    by (simp add: bigint_toString_def parseInt_string_digits decimal_radix_digits
        radix_digits_not_Nil read_digits_radix_digits)
qed

lemma parseInt_number: "parseInt (JNum x) = Inr (Some (number_value x))"
  by (simp add: parseInt_def number_toString_def parseInt_string_decimal)

lemma parseInt_bigint: "parseInt (JBigInt k) = Inr (Some k)"
  by (simp add: parseInt_def parseInt_string_decimal)

lemma holds_integer_parseInt:
  assumes "holds_integer v k" and "- (2 ^ 53) \<le> k" and "k \<le> 2 ^ 53"
  shows "parseInt v = Inr (Some k)"
proof -
  have "parseInt (JStr (bigint_toString 10 k)) = Inr (Some k)"
    by (simp add: parseInt_def parseInt_string_decimal)
  then show ?thesis
    using assms by (auto simp: holds_integer_def parseInt_number parseInt_bigint)
qed

section \<open>Properties of the conversion from hexadecimal\<close>

lemma hexToBytes_loop_pairs:
  "even i \<Longrightarrow> even (length hex) \<Longrightarrow> i \<le> length hex \<Longrightarrow> length bytes = length hex div 2 \<Longrightarrow>
   parse_pairs (drop i hex) = Some bs \<Longrightarrow>
   hexToBytes_loop hex i bytes = Inr (take (i div 2) bytes @ bs)"
proof (induction hex i bytes arbitrary: bs rule: hexToBytes_loop.induct)
  case (1 hex i bytes)
  show ?case
  proof (cases "i < length hex")
    case False
    with "1.prems" have "i = length hex" by simp
    with "1.prems" show ?thesis
      by (subst hexToBytes_loop.simps) simp
  next
    case True
    with "1.prems" have lt: "Suc i < length hex"
      by (metis Suc_lessI even_Suc)
    obtain rest where dr: "drop i hex = hex ! i # hex ! Suc i # rest" and rest: "rest = drop (i + 2) hex"
      using lt True by (metis Cons_nth_drop_Suc Suc_eq_plus1 add_Suc_right one_add_one)
    have sub: "substring hex i (i + 2) = [hex ! i, hex ! Suc i]"
      by (simp add: substring_def dr)
    from "1.prems"(5) obtain v bs' where
      v: "parseInt_string [hex ! i, hex ! Suc i] 16 = Some v" and
      bs': "parse_pairs rest = Some bs'" and bs: "bs = ToUint8 v # bs'"
      by (auto simp: dr split: option.splits)
    have sub': "substring hex i (Suc (Suc i)) = [hex ! i, hex ! Suc i]"
      using sub by simp
    have "hexToBytes_loop hex i bytes = hexToBytes_loop hex (i + 2) (bytes[i div 2 := ToUint8 v])"
      using True by (subst hexToBytes_loop.simps) (simp add: sub' v)
    also have "\<dots> = Inr (take ((i + 2) div 2) (bytes[i div 2 := ToUint8 v]) @ bs')"
      using True "1.prems" lt bs' rest sub v
      by (intro "1.IH") simp_all
    also have "take ((i + 2) div 2) (bytes[i div 2 := ToUint8 v]) = take (i div 2) bytes @ [ToUint8 v]"
    proof -
      have "i div 2 < length bytes"
        using "1.prems" True by (simp add: div_less_mono)
      then show ?thesis
        by (simp add: take_Suc_conv_app_nth)
    qed
    finally show ?thesis
      by (simp add: bs)
  qed
qed

lemma hexToBytes_even:
  "even (length hex) \<Longrightarrow> parse_pairs hex = Some bs \<Longrightarrow> hexToBytes hex = Inr bs"
  using hexToBytes_loop_pairs [of 0 hex "replicate (length hex div 2) 0" bs]
  by (simp add: hexToBytes_def)

lemma parse_pairs_append:
  "even (length xs) \<Longrightarrow> parse_pairs xs = Some as \<Longrightarrow> parse_pairs ys = Some bs \<Longrightarrow>
   parse_pairs (xs @ ys) = Some (as @ bs)"
proof (induction xs arbitrary: as rule: parse_pairs.induct)
  case (1 c d cs)
  then show ?case by (auto split: option.splits)
qed simp_all

lemma radix_digits_small: "n < 16 \<Longrightarrow> radix_digits 16 n = [digit_char n]"
  by (subst radix_digits.simps) simp

lemma radix_digits_step:
  "16 \<le> n \<Longrightarrow> radix_digits 16 n = radix_digits 16 (n div 16) @ [digit_char (n mod 16)]"
  by (subst radix_digits.simps) simp

lemma radix_digits_step2:
  assumes "256 \<le> n"
  shows "radix_digits 16 n =
         radix_digits 16 (n div 256) @ [digit_char (n div 16 mod 16), digit_char (n mod 16)]"
proof -
  have "16 \<le> n" and "16 \<le> n div 16"
    using assms by simp_all
  moreover have "n div 16 div 16 = n div 256"
    by (simp add: div_mult2_eq [symmetric])
  ultimately show ?thesis
    using radix_digits_step [of n] radix_digits_step [of "n div 16"] by simp
qed

lemma pad_even_even: "even (length (pad_even h))"
  by (simp add: pad_even_def js_literals mod_2_eq_odd)

lemma pad_even_append2: "pad_even (h @ [a, b]) = pad_even h @ [a, b]"
  by (simp add: pad_even_def)

lemma ToUint8_int: "ToUint8 (int n) = of_nat n"
  by (simp add: ToUint8_def)

lemma digit_char_0: "digit_char 0 = 0x30"
  by (simp add: digit_char_def)

lemma parse_pairs_hex_pair:
  "a < 16 \<Longrightarrow> b < 16 \<Longrightarrow> parse_pairs [digit_char a, digit_char b] = Some [of_nat (a * 16 + b)]"
  by (simp add: parseInt_hex_pair ToUint8_int del: of_nat_add of_nat_mult)

lemma parse_pairs_radix_digits:
  "parse_pairs (pad_even (radix_digits 16 n)) = Some (be_bytes n)"
proof (induction n rule: be_bytes.induct)
  case (1 n)
  show ?case
  proof (cases "n < 256")
    case True
    note small = this
    show ?thesis
    proof (cases "n < 16")
      case True
      then have "pad_even (radix_digits 16 n) = [digit_char 0, digit_char n]"
        by (simp add: radix_digits_small pad_even_def js_literals digit_char_0)
      then show ?thesis
        using True parse_pairs_hex_pair [of 0 n] by (simp add: be_bytes.simps [of n])
    next
      case False
      then have "n div 16 < 16" and "16 \<le> n"
        using small by simp_all
      then have "radix_digits 16 n = [digit_char (n div 16), digit_char (n mod 16)]"
        using radix_digits_step [of n] radix_digits_small [of "n div 16"] by simp
      then have "pad_even (radix_digits 16 n) = [digit_char (n div 16), digit_char (n mod 16)]"
        by (simp add: pad_even_def)
      moreover have "n div 16 * 16 + n mod 16 = n"
        by simp
      ultimately show ?thesis
        using small \<open>n div 16 < 16\<close> parse_pairs_hex_pair [of "n div 16" "n mod 16"]
        by (simp add: be_bytes.simps [of n])
    qed
  next
    case False
    then have ge: "256 \<le> n" by simp
    have IH: "parse_pairs (pad_even (radix_digits 16 (n div 256))) = Some (be_bytes (n div 256))"
      using False by (rule "1.IH")
    have last: "parse_pairs [digit_char (n div 16 mod 16), digit_char (n mod 16)]
                = Some [of_nat (n mod 256)]"
    proof -
      have "n div 16 mod 16 * 16 + n mod 16 = n mod 256"
        using mod_mult2_eq [of n 16 16] by simp
      then show ?thesis
        using parse_pairs_hex_pair [of "n div 16 mod 16" "n mod 16"] by simp
    qed
    have "parse_pairs (pad_even (radix_digits 16 n))
          = parse_pairs (pad_even (radix_digits 16 (n div 256))
                         @ [digit_char (n div 16 mod 16), digit_char (n mod 16)])"
      by (simp add: radix_digits_step2 [OF ge] pad_even_append2)
    also have "\<dots> = Some (be_bytes (n div 256) @ [of_nat (n mod 256)])"
      by (rule parse_pairs_append [OF pad_even_even IH last])
    finally show ?thesis
      using False by (simp add: be_bytes.simps [of n])
  qed
qed

lemma hexToBytes_radix_digits:
  "hexToBytes (pad_even (radix_digits 16 n)) = Inr (be_bytes n)"
  by (rule hexToBytes_even [OF pad_even_even parse_pairs_radix_digits])

lemma felt_hex_nonneg:
  "BigInt v = Inr n \<Longrightarrow> 0 \<le> n \<Longrightarrow> felt_hex v = Inr (pad_even (radix_digits 16 (nat n)))"
  by (simp add: felt_hex_def bigint_toString_def pad_even_def Let_def)

lemma length_be_bytes_le: "0 < k \<Longrightarrow> n < 256 ^ k \<Longrightarrow> length (be_bytes n) \<le> k"
proof (induction n arbitrary: k rule: be_bytes.induct)
  case (1 n)
  show ?case
  proof (cases "n < 256")
    case True
    then show ?thesis
      using "1.prems" by (simp add: be_bytes.simps [of n])
  next
    case False
    then obtain j where k: "k = Suc j" and "0 < j"
      using "1.prems" by (cases k; cases "k - 1") auto
    then have "n div 256 < 256 ^ j"
      using "1.prems" by (simp add: less_mult_imp_div_less mult.commute)
    then have "length (be_bytes (n div 256)) \<le> j"
      using False \<open>0 < j\<close> by (intro "1.IH") simp_all
    then show ?thesis
      using False k by (simp add: be_bytes.simps [of n])
  qed
qed

lemma length_be_bytes_gt: "256 ^ k \<le> n \<Longrightarrow> k < length (be_bytes n)"
proof (induction n arbitrary: k rule: be_bytes.induct)
  case (1 n)
  show ?case
  proof (cases "n < 256")
    case True
    then have "k = 0"
      using "1.prems" by (cases k) (auto simp: power_Suc dest: order_trans [where z = n and x = 256, rotated])
    then show ?thesis
      by (simp add: be_bytes.simps [of n])
  next
    case False
    show ?thesis
    proof (cases k)
      case 0
      then show ?thesis using False by (simp add: be_bytes.simps [of n])
    next
      case (Suc j)
      then have "256 ^ j \<le> n div 256"
        using "1.prems" by (simp add: less_eq_div_iff_mult_less_eq mult.commute)
      then have "j < length (be_bytes (n div 256))"
        using False by (intro "1.IH") simp_all
      then show ?thesis
        using False Suc by (simp add: be_bytes.simps [of n])
    qed
  qed
qed

lemma length_be_bytes_31:
  "256 ^ 30 \<le> n \<Longrightarrow> n < 256 ^ 31 \<Longrightarrow> length (be_bytes n) = 31"
  using length_be_bytes_le [of 31 n] length_be_bytes_gt [of 30 n] by simp

section \<open>Properties of the byte collection\<close>

lemma collect_words_be_bytes:
  "list_all2 (\<lambda>w n. BigInt w = Inr (int n)) ws ns \<Longrightarrow>
   collect_words ws allBytes = Inr (allBytes @ concat (map be_bytes ns))"
proof (induction ws ns arbitrary: allBytes rule: list_all2_induct)
  case Nil
  then show ?case by simp
next
  case (Cons w ws n ns)
  have "felt_hex w = Inr (pad_even (radix_digits 16 n))"
    using Cons.hyps(1) felt_hex_nonneg [of w "int n"] by simp
  then show ?case
    by (simp add: hexToBytes_radix_digits Cons.IH)
qed

lemma StringToBigInt_empty: "StringToBigInt [] = Inr 0"
  by (simp add: StringToBigInt_def trim_def trim_start_def)

lemma BigInt_nonzero_truthy: "BigInt v = Inr m \<Longrightarrow> m \<noteq> 0 \<Longrightarrow> truthy v"
  by (cases v) (auto simp: StringToBigInt_empty split: if_splits)

lemma radix_digits_10_0: "radix_digits 10 0 = [0x30]"
  by (simp add: radix_digits.simps digit_char_def)

lemma parseInt_string_0: "parseInt_string [0x30] 0 = Some 0"
  by (simp add: parseInt_string_def trim_start_def is_StrWhiteSpaceChar_def startsWith_def
      js_literals is_radix_digit_def digit_value_def Let_def)

lemma parseInt_string_word:
  "is_radix_digit 10 c = False \<Longrightarrow> \<not> is_StrWhiteSpaceChar c \<Longrightarrow> c \<noteq> 0x2D \<Longrightarrow> c \<noteq> 0x2B \<Longrightarrow>
   c \<noteq> 0x30 \<Longrightarrow> parseInt_string (c # cs) 0 = None"
  by (simp add: parseInt_string_def trim_start_def startsWith_def js_literals Let_def)

lemma parseInt_falsy:
  "parseInt JUndefined = Inr None" "parseInt JNull = Inr None" "parseInt (JBool False) = Inr None"
  "parseInt JNaN = Inr None" "parseInt (JStr []) = Inr None"
  "parseInt (JNum (safe 0)) = Inr (Some 0)" "parseInt (JBigInt 0) = Inr (Some 0)"
  by (simp_all add: parseInt_def js_def parseInt_string_word is_radix_digit_def digit_value_def
      is_StrWhiteSpaceChar_def number_toString_def bigint_toString_def radix_digits_10_0
      parseInt_string_0)
     (simp_all add: parseInt_string_def trim_start_def startsWith_def js_literals)

lemma parseInt_zero_number: "number_value x = 0 \<Longrightarrow> parseInt (JNum x) = Inr (Some 0)"
  by (simp add: parseInt_def number_toString_def bigint_toString_def radix_digits_10_0
      parseInt_string_0)

lemma parseInt_positive_truthy:
  assumes "parseInt v = Inr (Some k)" and "k \<noteq> 0"
  shows "truthy v"
proof (cases v)
  case (JBool b)
  with assms show ?thesis
    by (cases b) (auto simp: parseInt_falsy)
next
  case (JNum x)
  with assms show ?thesis
    using parseInt_zero_number [of x] by auto
qed (use assms in \<open>auto simp: parseInt_falsy split: if_splits\<close>)

lemma collect_pending_skip:
  "parseInt pending_word_len = Inr (Some 0) \<Longrightarrow>
   collect_pending pending_word pending_word_len allBytes = Inr allBytes"
  by (simp add: collect_pending_def)

lemma collect_pending_take:
  assumes "truthy pending_word" and "parseInt pending_word_len = Inr (Some k)" and "0 < k"
      and "BigInt pending_word = Inr n" and "0 \<le> n"
  shows "collect_pending pending_word pending_word_len allBytes
         = Inr (allBytes @ take (nat k) (be_bytes (nat n)))"
proof -
  have "truthy pending_word_len"
    using assms(2,3) by (intro parseInt_positive_truthy [of _ k]) simp_all
  moreover have "felt_hex pending_word = Inr (pad_even (radix_digits 16 (nat n)))"
    using assms(4,5) by (rule felt_hex_nonneg)
  ultimately show ?thesis
    using assms(1,2,3) by (simp add: collect_pending_def hexToBytes_radix_digits)
qed

lemma collect_words_length:
  "\<forall>w \<in> set ws. \<exists>n. BigInt w = Inr n \<and> 256 ^ 30 \<le> n \<and> n < 256 ^ 31 \<Longrightarrow>
   \<exists>bytes. collect_words ws allBytes = Inr (allBytes @ bytes) \<and> length bytes = 31 * length ws"
proof (induction ws arbitrary: allBytes)
  case Nil
  then show ?case by simp
next
  case (Cons w ws)
  then obtain n where n: "BigInt w = Inr n" "256 ^ 30 \<le> n" "n < 256 ^ 31"
    by auto
  then have "0 \<le> n" by simp
  with n have hex: "felt_hex w = Inr (pad_even (radix_digits 16 (nat n)))"
    by (intro felt_hex_nonneg)
  have "256 ^ 30 \<le> nat n" and "nat n < 256 ^ 31"
    using n by simp_all
  then have len: "length (be_bytes (nat n)) = 31"
    by (rule length_be_bytes_31)
  obtain bytes where
    "collect_words ws (allBytes @ be_bytes (nat n)) = Inr ((allBytes @ be_bytes (nat n)) @ bytes)"
    "length bytes = 31 * length ws"
    using Cons.IH [of "allBytes @ be_bytes (nat n)"] Cons.prems by auto
  then show ?case
    using hex len by (simp add: hexToBytes_radix_digits)
qed

text \<open>
  Claim C2, as amended. For a chain byte-array record whose \<open>data\<close> words are integers
  \<open>w\<close> with \<open>256\<^sup>3\<^sup>0 \<le> w < 256\<^sup>3\<^sup>1\<close> (31 bytes, the leading one not zero), whose
  \<open>pending_word_len\<close> is \<open>k\<close> in \<open>[0, 30]\<close> and whose pending word, when \<open>k > 0\<close>, is an
  integer of at least \<open>256\<^sup>k\<^sup>-\<^sup>1\<close> (at least \<open>k\<close> bytes), the byte-collection phase of
  \<^verbatim>\<open>decodeCairoByteArrayContent\<close> produces exactly \<open>31 * len(data) + k\<close> bytes.
\<close>

theorem reassembled_length:
  assumes data: "get_property v (js ''data'') = JArr ws"
      and words: "\<forall>w \<in> set ws. \<exists>n. BigInt w = Inr n \<and> 256 ^ 30 \<le> n \<and> n < 256 ^ 31"
      and len: "parseInt (get_property v (js ''pending_word_len'')) = Inr (Some k)"
      and range: "0 \<le> k" "k \<le> 30"
      and pending: "0 < k \<longrightarrow>
            (\<exists>m. BigInt (get_property v (js ''pending_word'')) = Inr m \<and> 256 ^ (nat k - 1) \<le> m)"
  shows "\<exists>bytes. collectBytes v = Inr bytes \<and> length bytes = 31 * length ws + nat k"
proof -
  obtain pre where pre: "collect_words ws [] = Inr pre" "length pre = 31 * length ws"
    using collect_words_length [OF words, of "[]"] by auto
  show ?thesis
  proof (cases "k = 0")
    case True
    then show ?thesis
      using data pre len by (simp add: collectBytes_def collect_pending_skip)
  next
    case False
    then have pos: "0 < k" using range by simp
    then obtain m where m: "BigInt (get_property v (js ''pending_word'')) = Inr m"
        "256 ^ (nat k - 1) \<le> m"
      using pending by auto
    have "0 < m"
      using m(2) by (rule less_le_trans [rotated]) simp
    then have "truthy (get_property v (js ''pending_word''))" and "0 \<le> m"
      using m(1) BigInt_nonzero_truthy by auto
    then have "collect_pending (get_property v (js ''pending_word''))
                 (get_property v (js ''pending_word_len'')) pre
               = Inr (pre @ take (nat k) (be_bytes (nat m)))"
      using len pos m(1) by (intro collect_pending_take)
    moreover have "nat k \<le> length (be_bytes (nat m))"
    proof -
      have "256 ^ (nat k - 1) \<le> nat m"
        using m(2) \<open>0 \<le> m\<close> by (simp add: le_nat_iff)
      then have "nat k - 1 < length (be_bytes (nat m))"
        by (rule length_be_bytes_gt)
      then show ?thesis by simp
    qed
    ultimately show ?thesis
      using data pre by (simp add: collectBytes_def)
  qed
qed

text \<open>
  Claim C4, as amended. For a chain byte-array record whose \<open>pending_word_len\<close> holds an
  integer \<open>k\<close> in \<open>[1, 30]\<close> (as a Number, a BigInt or its decimal numeral) and whose
  pending word is truthy (not zero) and converts to a non-negative integer \<open>n\<close>, the
  odd-length-padded hexadecimal rendering of the pending word converts to the big-endian
  bytes of \<open>n\<close>, and the reassembler appends exactly the first \<open>k\<close> of them to the bytes
  of the full words, dropping the bytes beyond that count.
\<close>

theorem pending_word_first_bytes:
  assumes data: "get_property v (js ''data'') = JArr ws"
      and words: "collect_words ws [] = Inr pre"
      and len: "holds_integer (get_property v (js ''pending_word_len'')) k"
      and lo: "1 \<le> k"
      and hi: "k \<le> 30"
      and pw: "truthy (get_property v (js ''pending_word''))"
      and big: "BigInt (get_property v (js ''pending_word'')) = Inr n"
      and nn: "0 \<le> n"
  shows "\<exists>h. felt_hex (get_property v (js ''pending_word'')) = Inr h \<and>
             hexToBytes h = Inr (be_bytes (nat n)) \<and>
             collectBytes v = Inr (pre @ take (nat k) (be_bytes (nat n)))"
proof -
  have parsed: "parseInt (get_property v (js ''pending_word_len'')) = Inr (Some k)"
    using len lo hi by (intro holds_integer_parseInt) simp_all
  have pos: "0 < k"
    using lo by simp
  have "felt_hex (get_property v (js ''pending_word'')) = Inr (pad_even (radix_digits 16 (nat n)))"
    using big nn by (rule felt_hex_nonneg)
  moreover have "collectBytes v = Inr (pre @ take (nat k) (be_bytes (nat n)))"
    using data words collect_pending_take [OF pw parsed pos big nn]
    by (simp add: collectBytes_def)
  ultimately show ?thesis
    by (simp add: hexToBytes_radix_digits)
qed

lemmas eval_simps =
  byte_array_record_def collectBytes_def collect_pending_def felt_hex_def bigint_toString_def
  number_toString_def radix_digits.simps digit_char_def hexToBytes_def hexToBytes_loop.simps
  substring_def parseInt_def parseInt_string_def trim_start_def is_StrWhiteSpaceChar_def
  startsWith_def is_radix_digit_def digit_value_def ToUint8_def js_def Let_def

text \<open>
  Claim C2 as stated fails: the well-formed word \<open>0x41\<close> contributes one byte, not 31,
  since \<^verbatim>\<open>toString(16)\<close> writes no leading zeros.
\<close>

theorem reassembled_length_counterexample:
  "BigInt (JBigInt 0x41) = Inr 0x41 \<and> parseInt (JNum (safe 0)) = Inr (Some 0) \<and>
   collectBytes (byte_array_record [JBigInt 0x41] (JBigInt 0) (JNum (safe 0))) = Inr [0x41] \<and>
   length [0x41 :: byte] \<noteq> 31 * length [JBigInt 0x41] + 0"
  by (simp add: eval_simps)

text \<open>
  Claim C4 as stated fails: with \<open>pending_word_len = 1\<close> and the pending word \<open>0\<close>, the
  padded rendering \<open>00\<close> has the first byte \<open>0x00\<close>, but the guard
  \<^verbatim>\<open>pending_word && pending_word_len\<close> skips the pending word and nothing is appended.
\<close>

theorem pending_word_first_bytes_counterexample:
  "parseInt (JNum (safe 1)) = Inr (Some 1) \<and>
   felt_hex (JBigInt 0) = Inr (js ''00'') \<and> hexToBytes (js ''00'') = Inr [0x00] \<and>
   collectBytes (byte_array_record [] (JBigInt 0) (JNum (safe 1))) = Inr []"
  by (simp add: eval_simps)

lemma minus_5_byte: "(- 5 :: byte) = 0xFB"
  by simp

text \<open>
  Claim C5 at the failing input \<^verbatim>\<open>{ data: [-5n], pending_word: 0n, pending_word_len: 0 }\<close>:
  the negative word renders as \<open>-5\<close>, which \<^verbatim>\<open>parseInt(_, 16)\<close> reads as the number
  \<open>-5\<close>, not as NaN; \<^verbatim>\<open>hexToBytes\<close> stores it as the byte \<open>0xFB\<close> and raises nothing, the
  reassembly does not abort, \<^verbatim>\<open>decodeCairoByteArray\<close> returns text instead of null and
  \<^verbatim>\<open>decodeCairoByteArrayContent\<close> goes on to the structured decoder.
\<close>

theorem negative_word_not_rejected:
  "felt_hex (JBigInt (- 5)) = Inr (js ''-5'') \<and> hexToBytes (js ''-5'') = Inr [0xFB] \<and>
   collectBytes (byte_array_record [JBigInt (- 5)] (JBigInt 0) (JNum (safe 0))) = Inr [0xFB] \<and>
   decodeCairoByteArray p (byte_array_record [JBigInt (- 5)] (JBigInt 0) (JNum (safe 0)))
     = JStr (bytesToString p [0xFB]) \<and>
   decodeCairoByteArrayContent p (byte_array_record [JBigInt (- 5)] (JBigInt 0) (JNum (safe 0)))
     = (case decodeCbor p [0xFB] of
          Inr cborDecoded \<Rightarrow> cborDecoded
        | Inl cborError \<Rightarrow> JStr (bytesToString p [0xFB]))"
  by (simp add: eval_simps decodeCairoByteArray_def decodeCairoByteArray_try_def
      decodeCairoByteArrayContent_def isCairoByteArray_def Object_prototype_keys_def
      minus_5_byte)

text \<open>
  A pending word of three bytes with \<open>pending_word_len = 2\<close>: the leading bytes \<open>41 42\<close> are
  kept and the trailing byte \<open>43\<close> is dropped.
\<close>

theorem pending_word_first_bytes_witness:
  "holds_integer (JNum (safe 2)) 2 \<and> truthy (JBigInt 0x414243) \<and>
   BigInt (JBigInt 0x414243) = Inr 0x414243 \<and>
   collectBytes (byte_array_record [] (JBigInt 0x414243) (JNum (safe 2))) = Inr [0x41, 0x42]"
proof -
  have "\<exists>h. felt_hex (get_property (byte_array_record [] (JBigInt 0x414243) (JNum (safe 2)))
                         (js ''pending_word'')) = Inr h \<and>
             hexToBytes h = Inr (be_bytes (nat 0x414243)) \<and>
             collectBytes (byte_array_record [] (JBigInt 0x414243) (JNum (safe 2)))
               = Inr ([] @ take (nat 2) (be_bytes (nat 0x414243)))"
    by (rule pending_word_first_bytes [where ws = "[]"])
       (simp_all add: byte_array_record_def js_def holds_integer_def)
  then show ?thesis
    by (auto simp: be_bytes.simps holds_integer_def)
qed

section \<open>Properties of shape detection\<close>

lemma js_data_not_inherited: "js ''data'' \<notin> set Object_prototype_keys"
  by (simp add: Object_prototype_keys_def js_def)

lemma js_pending_word_not_inherited: "js ''pending_word'' \<notin> set Object_prototype_keys"
  by (simp add: Object_prototype_keys_def js_def)

lemma js_pending_word_len_not_inherited:
  "js ''pending_word_len'' \<notin> set Object_prototype_keys"
  by (simp add: Object_prototype_keys_def js_def)

text \<open>
  Claim C7. \<^verbatim>\<open>isCairoByteArray(v)\<close> is true exactly when \<open>v\<close> is a non-null mapping with a
  \<open>data\<close> field holding an array and with a \<open>pending_word\<close> or a \<open>pending_word_len\<close>
  field.
\<close>

theorem isCairoByteArray_iff:
  "isCairoByteArray v \<longleftrightarrow>
     (\<exists>kvs ws. v = JObj kvs \<and> map_of kvs (js ''data'') = Some (JArr ws) \<and>
        (js ''pending_word'' \<in> fst ` set kvs \<or> js ''pending_word_len'' \<in> fst ` set kvs))"
proof (cases v)
  case (JObj kvs)
  show ?thesis
  proof (cases "map_of kvs (js ''data'')")
    case None
    then show ?thesis
      using JObj by (simp add: isCairoByteArray_def)
  next
    case (Some d)
    then have "js ''data'' \<in> fst ` set kvs"
      by (metis map_of_eq_None_iff option.distinct(1))
    then show ?thesis
      using JObj Some
      by (cases d)
         (simp_all add: isCairoByteArray_def js_data_not_inherited
            js_pending_word_not_inherited js_pending_word_len_not_inherited)
  qed
qed (simp_all add: isCairoByteArray_def js_data_not_inherited)

section \<open>Properties of the contract service helper\<close>

lemma stringToUint8Array_loop_eq:
  "i \<le> length str \<Longrightarrow> length arr = length str \<Longrightarrow>
   stringToUint8Array_loop str i arr = take i arr @ map (\<lambda>c. ToUint8 (uint c)) (drop i str)"
proof (induction str i arr rule: stringToUint8Array_loop.induct)
  case (1 str i arr)
  show ?case
  proof (cases "i < length str")
    case True
    let ?b = "ToUint8 (charCodeAt str i)"
    have "stringToUint8Array_loop str i arr = stringToUint8Array_loop str (Suc i) (arr[i := ?b])"
      using True by (subst stringToUint8Array_loop.simps) simp
    also have "\<dots> = take (Suc i) (arr[i := ?b]) @ map (\<lambda>c. ToUint8 (uint c)) (drop (Suc i) str)"
      using True "1.prems" by (intro "1.IH") simp_all
    also have "take (Suc i) (arr[i := ?b]) = take i arr @ [?b]"
      using True "1.prems" by (simp add: take_Suc_conv_app_nth)
    also have "(take i arr @ [?b]) @ map (\<lambda>c. ToUint8 (uint c)) (drop (Suc i) str)
               = take i arr @ map (\<lambda>c. ToUint8 (uint c)) (drop i str)"
      using True by (simp add: charCodeAt_def Cons_nth_drop_Suc [symmetric])
    finally show ?thesis .
  next
    case False
    then show ?thesis
      using "1.prems" by (subst stringToUint8Array_loop.simps) simp
  qed
qed

lemma stringToUint8Array_map:
  "stringToUint8Array str = map (\<lambda>c. ToUint8 (uint c)) str"
  by (simp add: stringToUint8Array_def stringToUint8Array_loop_eq)

lemma unat_ToUint8_uint: "unat (ToUint8 (uint (c :: 16 word))) = unat c mod 256"
  by (simp add: ToUint8_def unsigned_ucast_eq take_bit_eq_mod)

text \<open>
  Claim C10. For every string \<open>s\<close>, \<^verbatim>\<open>stringToUint8Array(s)\<close> has exactly \<open>s.length\<close>
  elements and element \<open>i\<close> is \<open>s.charCodeAt(i)\<close> modulo 256: a code unit above 255 is
  cut to its low eight bits, neither rejected nor UTF-8 encoded.
\<close>

theorem stringToUint8Array_low_bytes:
  "length (stringToUint8Array s) = length s \<and>
   (\<forall>i < length s. unat (stringToUint8Array s ! i) = nat (charCodeAt s i) mod 256)"
  by (simp add: stringToUint8Array_map unat_ToUint8_uint charCodeAt_def)

text \<open>The euro sign U+20AC comes out as the single byte \<open>0xAC\<close>.\<close>

theorem stringToUint8Array_low_bytes_witness:
  "length (stringToUint8Array [0x48, 0x20AC]) = 2 \<and>
   (1::nat) < length [0x48, 0x20AC :: 16 word] \<and>
   unat (stringToUint8Array [0x48, 0x20AC] ! 1) = 0xAC"
  using stringToUint8Array_low_bytes [of "[0x48, 0x20AC]"]
  by (simp add: charCodeAt_def)

section \<open>Properties of the entry points\<close>

lemma toString_inherited: "js ''toString'' \<in> set Object_prototype_keys"
  by (simp add: Object_prototype_keys_def)

text \<open>
  Claim C9. Every input of type object other than \<open>null\<close> has a \<open>toString\<close> property on
  its prototype chain, and \<^verbatim>\<open>byteArrayToString\<close> returns the result of
  \<^verbatim>\<open>value.toString()\<close> for it at once: the result does not depend on the short-string
  decoder, the structured decoder or the chain byte-array decoder, which are not reached.
\<close>

theorem object_input_returns_toString:
  assumes "typeof v = TObject" and "v \<noteq> JNull"
  shows "has_property (js ''toString'') v = Some True \<and> byteArrayToString p v = call_toString v"
  using assms by (cases v) (simp_all add: byteArrayToString_def toString_inherited)

lemma isCairoByteArray_record: "isCairoByteArray (byte_array_record ws pw pl)"
  by (simp add: isCairoByteArray_def byte_array_record_def js_def)

lemma ToString_record: "ToString (byte_array_record ws pw pl) = Inr (js ''[object Object]'')"
  by (simp add: byte_array_record_def js_def)

text \<open>
  A chain byte-array record holding the word of \<open>hello\<close> comes back as \<open>[object Object]\<close>.
\<close>

theorem object_input_returns_toString_witness:
  "typeof (byte_array_record [JBigInt 0x68656C6C6F] (JBigInt 0) (JNum (safe 0))) = TObject \<and>
   byte_array_record [JBigInt 0x68656C6C6F] (JBigInt 0) (JNum (safe 0)) \<noteq> JNull \<and>
   isCairoByteArray (byte_array_record [JBigInt 0x68656C6C6F] (JBigInt 0) (JNum (safe 0))) \<and>
   byteArrayToString reference_platform (byte_array_record [JBigInt 0x68656C6C6F] (JBigInt 0) (JNum (safe 0)))
     = Inr (JStr (js ''[object Object]''))"
  using object_input_returns_toString
    [of "byte_array_record [JBigInt 0x68656C6C6F] (JBigInt 0) (JNum (safe 0))" reference_platform]
  by (simp add: isCairoByteArray_record call_toString_def ToString_record)
     (simp add: byte_array_record_def)

text \<open>
  Claim C6, as amended. \<^verbatim>\<open>decodeCborMetadata\<close> returns every mapping unchanged, whether it
  has the chain byte-array shape or not, and runs no decoding stage on it. A sequence is
  not returned unchanged: when all its items are numeric they are converted to bytes and
  given to the structured decoder, otherwise the input is refused with a CBOR decoding
  error.
\<close>

theorem mapping_returned_unchanged:
  "decodeCborMetadata p (JObj kvs) = Inr (JObj kvs) \<and>
   decodeCborMetadata p (JArr items) =
     (if list_all (is_numeric_item p) items
      then (case decodeCbor p (map (\<lambda>item. number_to_byte (Number p item)) items) of
              Inr r \<Rightarrow> Inr r
            | Inl e \<Rightarrow> Inl (CborDecodingError e))
      else Inl (CborDecodingError InvalidByteArray))"
  by (simp add: decodeCborMetadata_def decodeCborMetadata_try_def to_bytes_def)

text \<open>
  Claim C6 as stated fails on a sequence: the array holding one empty mapping does not
  have the chain byte-array shape and is not returned; the call raises.
\<close>

theorem mapping_returned_unchanged_counterexample:
  "\<not> isCairoByteArray (JArr [JObj []]) \<and>
   decodeCborMetadata reference_platform (JArr [JObj []]) = Inl (CborDecodingError InvalidByteArray)"
  by (simp add: isCairoByteArray_def Object_prototype_keys_def js_def
      decodeCborMetadata_def decodeCborMetadata_try_def to_bytes_def is_numeric_item_def)

lemma hello_hex_pattern: "hex_pattern (js ''0x68656c6c6f'')"
  by (simp add: hex_pattern_def js_def startsWith_def is_hex_digit_def)

lemma hello_hexToBytes: "hexToBytes (js ''68656c6c6f'') = Inr [0x68, 0x65, 0x6C, 0x6C, 0x6F]"
  by (simp add: eval_simps)

lemma hello_to_bytes:
  "to_bytes p (JStr (js ''0x68656c6c6f'')) = Inr (Bytes (Some [0x68, 0x65, 0x6C, 0x6C, 0x6F]))"
proof -
  have "slice_from (js ''0x68656c6c6f'') 2 = js ''68656c6c6f''"
    and "startsWith (js ''0x68656c6c6f'') (js ''0x'')"
    by (simp_all add: slice_from_def startsWith_def js_def)
  then show ?thesis
    by (simp add: to_bytes_def hello_hex_pattern hello_hexToBytes)
qed

lemma hello_not_empty: "js ''0x68656c6c6f'' \<noteq> []"
  by (simp add: js_def)

text \<open>
  Claim C3, as amended. On the string \<open>0x68656c6c6f\<close>, \<^verbatim>\<open>decodeCborMetadata\<close> strips the
  \<open>0x\<close> prefix, converts the hexadecimal digits to the bytes \<open>68 65 6c 6c 6f\<close> and gives
  them to the structured decoder; the decoder's value is returned, and its failure is
  raised again as a CBOR decoding error. There is no fall-back to the text \<open>hello\<close>.
  \<^verbatim>\<open>byteArrayToString\<close> returns the input string unchanged.
\<close>

theorem hex_path_hello:
  "to_bytes p (JStr (js ''0x68656c6c6f'')) = Inr (Bytes (Some [0x68, 0x65, 0x6C, 0x6C, 0x6F])) \<and>
   decodeCborMetadata p (JStr (js ''0x68656c6c6f'')) =
     (case decodeCbor p [0x68, 0x65, 0x6C, 0x6C, 0x6F] of
        Inr r \<Rightarrow> Inr r
      | Inl e \<Rightarrow> Inl (CborDecodingError e)) \<and>
   byteArrayToString p (JStr (js ''0x68656c6c6f'')) = Inr (JStr (js ''0x68656c6c6f''))"
  using hello_not_empty
  by (simp add: hello_to_bytes decodeCborMetadata_def decodeCborMetadata_try_def
      byteArrayToString_def)

lemma hello_item: "cbor_item (Suc fuel) [0x68, 0x65, 0x6C, 0x6C, 0x6F] = None"
  by (simp add: cbor_argument_def Let_def)

lemma hello_not_cbor:
  "cbor_decode [0x68, 0x65, 0x6C, 0x6C, 0x6F] = Inl (LibraryError (js ''Invalid or truncated CBOR''))"
  using hello_item [of 11] by (simp add: cbor_decode_def)





text \<open>
  Claim C3 as stated fails: the bytes of \<open>hello\<close> start a text string of declared length
  8 and are refused by the structured decoder, so \<^verbatim>\<open>decodeCborMetadata\<close> raises, and
  \<^verbatim>\<open>byteArrayToString\<close> returns \<open>0x68656c6c6f\<close>; neither returns \<open>hello\<close>.
\<close>

theorem hex_path_hello_counterexample:
  "decodeCborMetadata reference_platform (JStr (js ''0x68656c6c6f''))
     = Inl (CborDecodingError (LibraryError (js ''Invalid or truncated CBOR''))) \<and>
   byteArrayToString reference_platform (JStr (js ''0x68656c6c6f'')) = Inr (JStr (js ''0x68656c6c6f'')) \<and>
   js ''0x68656c6c6f'' \<noteq> js ''hello''"
proof -
  have "js ''0x68656c6c6f'' \<noteq> js ''hello''"
    by (simp add: js_def)
  then show ?thesis
    using hello_not_empty
    by (simp add: decodeCborMetadata_def decodeCborMetadata_try_def byteArrayToString_def
        hello_to_bytes reference_platform_def hello_not_cbor)
qed

text \<open>
  With the reference decoder the hexadecimal path ends in the raised error.
\<close>

theorem hex_path_hello_witness:
  "decodeCborMetadata reference_platform (JStr (js ''0x68656c6c6f''))
     = Inl (CborDecodingError (LibraryError (js ''Invalid or truncated CBOR'')))"
  using hex_path_hello [of reference_platform]
  by (simp add: reference_platform_def hello_not_cbor)



lemma ToString_plain_object:
  "js ''toString'' \<notin> fst ` set kvs \<Longrightarrow> ToString (JObj kvs) = Inr (js ''[object Object]'')"
  by simp






















section \<open>Further examples\<close>

text \<open>
  One full word of 31 bytes and a pending word of two bytes give 33 bytes.
\<close>

theorem reassembled_length_witness:
  "BigInt (JBigInt 0x41000000000000000000000000000000000000000000000000000000000000)
     = Inr 0x41000000000000000000000000000000000000000000000000000000000000 \<and>
   (256::int) ^ 30 \<le> 0x41000000000000000000000000000000000000000000000000000000000000 \<and>
   (0x41000000000000000000000000000000000000000000000000000000000000::int) < 256 ^ 31 \<and>
   parseInt (JNum (safe 2)) = Inr (Some 2) \<and>
   BigInt (JBigInt 0x4142) = Inr 0x4142 \<and> (256::int) ^ (nat 2 - 1) \<le> 0x4142 \<and>
   (\<exists>bytes. collectBytes
              (byte_array_record
                 [JBigInt 0x41000000000000000000000000000000000000000000000000000000000000]
                 (JBigInt 0x4142) (JNum (safe 2))) = Inr bytes \<and>
            length bytes = 33)"
proof -
  have len: "parseInt (JNum (safe 2)) = Inr (Some 2)"
    by (simp add: eval_simps)
  have "\<exists>bytes. collectBytes
              (byte_array_record
                 [JBigInt 0x41000000000000000000000000000000000000000000000000000000000000]
                 (JBigInt 0x4142) (JNum (safe 2))) = Inr bytes \<and>
            length bytes
            = 31 * length [JBigInt 0x41000000000000000000000000000000000000000000000000000000000000]
              + nat 2"
    by (rule reassembled_length) (simp_all add: byte_array_record_def js_def len)
  then show ?thesis
    using len by simp
qed

text \<open>
  The shape test on a few values.
\<close>

theorem isCairoByteArray_iff_witness:
  "isCairoByteArray (JObj [(js ''data'', JArr []), (js ''pending_word_len'', JNum (safe 0))]) \<and>
   \<not> isCairoByteArray (JObj [(js ''data'', JStr []), (js ''pending_word'', JNum (safe 0))]) \<and>
   \<not> isCairoByteArray (JObj [(js ''data'', JArr [])]) \<and>
   \<not> isCairoByteArray JNull \<and> \<not> isCairoByteArray (JArr [])"
  using isCairoByteArray_iff [of "JObj [(js ''data'', JArr []), (js ''pending_word_len'', JNum (safe 0))]"]
  by (simp add: isCairoByteArray_def Object_prototype_keys_def js_def)

text \<open>
  The smallest positive integer that no Number represents, \<open>2\<^sup>5\<^sup>3 + 1\<close>, is rendered exactly.
\<close>

theorem jsonReplacer_bigint_exact_witness:
  "jsonReplacer (js ''total_supply'') (JBigInt 9007199254740993) = JStr (js ''9007199254740993'') \<and>
   StringToBigInt (js ''9007199254740993'') = Inr 9007199254740993"
proof -
  have "bigint_toString 10 9007199254740993 = js ''9007199254740993''"
    by (simp add: bigint_toString_def radix_digits.simps digit_char_def js_def)
  then show ?thesis
    using jsonReplacer_bigint_exact [of "js ''total_supply''" 9007199254740993] by simp
qed

text \<open>
  A plain mapping and a chain byte-array record are both returned as they are.
\<close>

theorem mapping_returned_unchanged_witness:
  "decodeCborMetadata reference_platform (JObj [(js ''name'', JStr (js ''Badge''))])
     = Inr (JObj [(js ''name'', JStr (js ''Badge''))]) \<and>
   decodeCborMetadata reference_platform (byte_array_record [JBigInt 0x41] (JBigInt 0) (JNum (safe 0)))
     = Inr (byte_array_record [JBigInt 0x41] (JBigInt 0) (JNum (safe 0)))"
  using mapping_returned_unchanged [of reference_platform "[(js ''name'', JStr (js ''Badge''))]"]
    mapping_returned_unchanged [of reference_platform
      "[(js ''data'', JArr [JBigInt 0x41]), (js ''pending_word'', JBigInt 0),
        (js ''pending_word_len'', JNum (safe 0))]"]
  by (simp add: byte_array_record_def)

lemma collect_words_non_integer:
  "\<exists>w \<in> set ws. \<exists>e. BigInt w = Inl e \<Longrightarrow> \<exists>e. collect_words ws allBytes = Inl e"
proof (induction ws arbitrary: allBytes)
  case Nil
  then show ?case by simp
next
  case (Cons w ws)
  show ?case
  proof (cases "BigInt w")
    case (Inl e)
    then show ?thesis by (simp add: felt_hex_def)
  next
    case (Inr n)
    then have "\<exists>w \<in> set ws. \<exists>e. BigInt w = Inl e"
      using Cons.prems by auto
    then show ?thesis
      using Cons.IH by (auto split: sum.splits)
  qed
qed

lemma non_integer_word_gives_null:
  assumes "isCairoByteArray v" and "get_property v (js ''data'') = JArr ws"
      and "\<exists>w \<in> set ws. \<exists>e. BigInt w = Inl e"
  shows "decodeCairoByteArrayContent p v = JNull"
proof -
  obtain e where "collect_words ws [] = Inl e"
    using collect_words_non_integer [OF assms(3)] by blast
  then show ?thesis
    using assms(1,2) by (simp add: decodeCairoByteArrayContent_def collectBytes_def)
qed


end
